theory Spec2Isabelle
  imports Complex_Main "HOL-Library.Word"
begin

section \<open>Errors\<close>

text \<open>
  The notebooks never catch an exception: whatever a library call raises ends the cell
  (and, under "run all", the notebook). Every raise is a value \<open>Inl e\<close> of a sum type.
  \<open>ValueError\<close> and \<open>IndexError\<close> are the Python exceptions of the array operations,
  \<open>TrainingError\<close> stands for any exception that leaves \<open>model.fit\<close>.
\<close>

datatype error = ValueError | IndexError | TrainingError

text \<open>Sequencing of calls that can raise: the first exception ends the cell.\<close>

definition bind_result :: "error + 'a \<Rightarrow> ('a \<Rightarrow> error + 'b) \<Rightarrow> error + 'b" where
  "bind_result r f = (case r of Inl e \<Rightarrow> Inl e | Inr v \<Rightarrow> f v)"

section \<open>Arrays\<close>

text \<open>
  A NumPy array: its shape and its elements in row-major order. The arrays of the corpus
  hold unsigned bytes (\<open>uint8\<close>): images have shape (n, 28, 28), labels shape (n). The
  operations are the ones the loading cells use; each is NumPy's, written out with the
  failure it raises.
\<close>

record 'a ndarray =
  shape :: "nat list"
  data :: "'a list"

text \<open>\<open>a.reshape(...)\<close>: the same elements under a new shape of the same size.\<close>

definition reshape :: "nat list \<Rightarrow> 'a ndarray \<Rightarrow> error + 'a ndarray" where
  "reshape new a =
     (if prod_list new = length (data a) then Inr (a\<lparr>shape := new\<rparr>) else Inl ValueError)"

text \<open>\<open>a.shape[0]\<close>.\<close>

definition shape0 :: "'a ndarray \<Rightarrow> error + nat" where
  "shape0 a = (case shape a of [] \<Rightarrow> Inl IndexError | r # rest \<Rightarrow> Inr r)"

text \<open>
  \<open>a[:n]\<close>: the first \<open>n\<close> rows. A Python slice never raises on its bounds: a bound
  beyond the end stops at the end, a negative bound counts from the end. \<open>slice_stop n r\<close>
  is the number of rows that \<open>[:n]\<close> keeps of \<open>r\<close>.
\<close>

definition slice_stop :: "int \<Rightarrow> nat \<Rightarrow> nat" where
  "slice_stop n r = (if 0 \<le> n then min (nat n) r else r - nat (- n))"

definition slice_to :: "int \<Rightarrow> 'a ndarray \<Rightarrow> error + 'a ndarray" where
  "slice_to n a =
     (case shape a of
        [] \<Rightarrow> Inl IndexError
      | r # rest \<Rightarrow>
          (let k = slice_stop n r in
           Inr \<lparr>shape = k # rest, data = take (k * prod_list rest) (data a)\<rparr>))"

text \<open>
  \<open>a[mask]\<close> for an array \<open>mask\<close> of row indices: the rows at these indices, in their
  order in \<open>mask\<close>. An index beyond the last row raises. \<open>a[mask, :]\<close> is the same on
  an array of two or more dimensions and raises on an array of one.
\<close>

definition take_rows :: "nat list \<Rightarrow> 'a ndarray \<Rightarrow> error + 'a ndarray" where
  "take_rows indices a =
     (case shape a of
        [] \<Rightarrow> Inl IndexError
      | r # rest \<Rightarrow>
          if list_all (\<lambda>i. i < r) indices
          then Inr \<lparr>shape = length indices # rest,
                    data = concat (map (\<lambda>i. take (prod_list rest)
                                              (drop (i * prod_list rest) (data a))) indices)\<rparr>
          else Inl IndexError)"

definition take_rows_all :: "nat list \<Rightarrow> 'a ndarray \<Rightarrow> error + 'a ndarray" where
  "take_rows_all indices a =
     (if length (shape a) < 2 then Inl IndexError else take_rows indices a)"

text \<open>The number of rows (examples) of an array, and its row at an index.\<close>

definition rows :: "'a ndarray \<Rightarrow> nat" where
  "rows a = (case shape a of [] \<Rightarrow> 0 | r # rest \<Rightarrow> r)"

definition row :: "'a ndarray \<Rightarrow> nat \<Rightarrow> 'a list" where
  "row a i = take (prod_list (tl (shape a))) (drop (i * prod_list (tl (shape a))) (data a))"

section \<open>Normalization in single precision\<close>

text \<open>
  \<open>astype('float32')\<close> turns each byte into the float of the same value, which is exact.
  \<open>x /= 255\<close> divides each element in single precision: the result is the quotient
  rounded to the nearest float with a 24-bit significand, ties to the even significand.
  A float's value is a rational. \<open>float32_round q\<close> is that rounding for \<open>0 \<le> q < 2\<close>,
  the range of a byte divided by 255: \<open>binade\<close> finds the least \<open>k \<le> 126\<close> with
  \<open>1 \<le> q * 2 ^ k\<close> (beyond 126 the floats are subnormal and their spacing stays), and
  the floats near \<open>q\<close> are the multiples of \<open>2 ^ -(k + 23)\<close>.
\<close>

definition round_half_even :: "rat \<Rightarrow> int" where
  "round_half_even x =
     (let f = \<lfloor>x\<rfloor>; r = x - of_int f in
      if r < 1 / 2 then f
      else if 1 / 2 < r then f + 1
      else if even f then f else f + 1)"

fun binade :: "rat \<Rightarrow> nat \<Rightarrow> nat \<Rightarrow> nat" where
  "binade q k 0 = k"
| "binade q k (Suc fuel) = (if 1 \<le> q * 2 ^ k then k else binade q (Suc k) fuel)"

definition float32_round :: "rat \<Rightarrow> rat" where
  "float32_round q =
     (if q = 0 then 0
      else let k = binade q 0 126 in
        of_int (round_half_even (q * 2 ^ (k + 23))) / 2 ^ (k + 23))"

definition astype_float32 :: "8 word ndarray \<Rightarrow> rat ndarray" where
  "astype_float32 a = \<lparr>shape = shape a, data = map (\<lambda>p. of_nat (unat p)) (data a)\<rparr>"

definition divide_by :: "rat \<Rightarrow> rat ndarray \<Rightarrow> rat ndarray" where
  "divide_by d a = \<lparr>shape = shape a, data = map (\<lambda>v. float32_round (v / d)) (data a)\<rparr>"

text \<open>What the two steps make of one pixel.\<close>

definition normalize :: "8 word \<Rightarrow> rat" where
  "normalize p = float32_round (of_nat (unat p) / 255)"

section \<open>Label encoding\<close>

text \<open>
  Modelled from the spec: \<open>keras.utils.to_categorical\<close> is a function of the Keras
  library, which the notebooks only call (part_000 lines 82-83, part_001 lines 106-107,
  part_002 lines 474-475). The spec describes it as "integer label -> fixed-width
  indicator vector (one-hot), length K, exactly one 1-valued entry", for labels in
  [0, K). The entries are the floats 0.0 and 1.0, which are exact, so they are modelled as
  rationals. A label outside [0, K) has no indicator vector of width K: the call fails.
  Labels are naturals: the corpus stores them as unsigned bytes.
\<close>

definition num_classes :: nat where
  "num_classes = 10"

definition one_hot :: "nat \<Rightarrow> nat \<Rightarrow> rat list" where
  "one_hot K y = map (\<lambda>j. if j = y then 1 else 0) [0..<K]"

definition to_categorical :: "nat list \<Rightarrow> nat \<Rightarrow> error + rat list list" where
  "to_categorical ys K =
     (if list_all (\<lambda>y. y < K) ys then Inr (map (one_hot K) ys) else Inl IndexError)"

text \<open>
  Modelled from the spec: \<open>numpy.argmax\<close> (part_001 line 574, along axis 1, so applied to
  each row) is a function of the NumPy library. The spec calls it the decoding of a
  one-hot vector. It is the index of the first largest entry, found by one scan that
  replaces the best entry only by a strictly larger one; an empty row has no argmax and
  the call fails.
\<close>

fun argmax_scan :: "rat list \<Rightarrow> nat \<Rightarrow> rat \<Rightarrow> nat \<Rightarrow> nat" where
  "argmax_scan [] i best best_i = best_i"
| "argmax_scan (x # xs) i best best_i =
     (if best < x then argmax_scan xs (Suc i) x i
      else argmax_scan xs (Suc i) best best_i)"

definition argmax :: "rat list \<Rightarrow> error + nat" where
  "argmax v = (case v of [] \<Rightarrow> Inl ValueError | x # xs \<Rightarrow> Inr (argmax_scan xs 1 x 0))"

text \<open>\<open>numpy.argmax(y, 1)\<close>: the argmax of every row; the first failing row fails the call.\<close>

fun argmax_rows :: "rat list list \<Rightarrow> error + nat list" where
  "argmax_rows [] = Inr []"
| "argmax_rows (v # vs) =
     (case argmax v of
        Inl e \<Rightarrow> Inl e
      | Inr i \<Rightarrow> (case argmax_rows vs of Inl e \<Rightarrow> Inl e | Inr is \<Rightarrow> Inr (i # is)))"

section \<open>Confusion matrix and accuracy\<close>

text \<open>
  Modelled from the spec: \<open>sklearn.metrics.confusion_matrix\<close> is a function of
  scikit-learn, called once (part_001 line 574). The spec describes its result as a
  "K x K count grid; row i, column j = number of examples of true class i predicted as
  class j", built "by cross-tabulating true vs. predicted labels". \<open>K\<close> is the number of
  classes of the task (\<open>num_classes\<close> in the notebooks). The two label sequences are
  paired position by position; sequences of different lengths cannot be paired and the
  call fails.
\<close>

definition cell_count :: "(nat \<times> nat) list \<Rightarrow> nat \<Rightarrow> nat \<Rightarrow> nat" where
  "cell_count zs i j = length (filter (\<lambda>z. fst z = i \<and> snd z = j) zs)"

definition confusion_matrix :: "nat \<Rightarrow> nat list \<Rightarrow> nat list \<Rightarrow> error + nat list list" where
  "confusion_matrix K y_true y_pred =
     (if length y_true \<noteq> length y_pred then Inl ValueError
      else Inr (map (\<lambda>i. map (\<lambda>j. cell_count (zip y_true y_pred) i j) [0..<K]) [0..<K]))"

text \<open>The sum over all cells, and the sum of the diagonal, of a grid.\<close>

definition total :: "nat list list \<Rightarrow> nat" where
  "total m = sum_list (map sum_list m)"

definition diagonal :: "nat list list \<Rightarrow> nat" where
  "diagonal m = sum_list (map (\<lambda>i. m ! i ! i) [0..<length m])"

text \<open>
  Modelled from the spec: the accuracy that \<open>model.evaluate\<close> reports (part_001 lines
  514-516) is computed inside Keras. The spec relates it to the count of correct
  predictions ("accuracy x total"): it is the fraction of examples whose predicted class
  is the true class, here as an exact rational. An empty split has no accuracy.
\<close>

definition correct_predictions :: "nat list \<Rightarrow> nat list \<Rightarrow> nat" where
  "correct_predictions y_true y_pred =
     length (filter (\<lambda>z. fst z = snd z) (zip y_true y_pred))"

definition accuracy :: "nat list \<Rightarrow> nat list \<Rightarrow> rat option" where
  "accuracy y_true y_pred =
     (if y_true = [] then None
      else Some (of_nat (correct_predictions y_true y_pred) / of_nat (length y_true)))"

section \<open>Loading the dataset\<close>

text \<open>
  \<open>mnist.load_data()\<close> returns the corpus: the images and labels of the training split
  and of the test split. The corpus is the input of the loading cells. After a loading
  cell the same four names hold the normalized features and the one-hot labels.
\<close>

record ('x, 'y) dataset =
  x_train :: 'x
  y_train :: 'y
  x_test :: 'x
  y_test :: 'y

type_synonym corpus = "(8 word ndarray, 8 word ndarray) dataset"

type_synonym loaded = "(rat ndarray, rat list list) dataset"

text \<open>\<open>to_categorical\<close> on an array of labels: the labels as integers, flattened.\<close>

definition to_categorical_array :: "8 word ndarray \<Rightarrow> nat \<Rightarrow> error + rat list list" where
  "to_categorical_array y K = to_categorical (map unat (data y)) K"

text \<open>
  The loading cell of part_000 (lines 60-83), as a function of \<open>TRAIN_EXAMPLES\<close>,
  \<open>TEST_EXAMPLES\<close> and the corpus. Line 75 slices \<open>x_train\<close>, which line 74 has already
  cut to \<open>TRAIN_EXAMPLES\<close> rows; the reshaped \<open>x_test\<close> of line 71 is not used again.
\<close>

definition load_part_000 :: "int \<Rightarrow> int \<Rightarrow> corpus \<Rightarrow> error + loaded" where
  "load_part_000 TRAIN_EXAMPLES TEST_EXAMPLES c =
     bind_result (reshape [60000, 28 * 28] (x_train c)) (\<lambda>x_train1.
     bind_result (reshape [10000, 28 * 28] (x_test c)) (\<lambda>x_test1.
     bind_result (slice_to TRAIN_EXAMPLES x_train1) (\<lambda>x_train2.
     bind_result (slice_to TEST_EXAMPLES (astype_float32 x_train2)) (\<lambda>x_test2.
     bind_result (slice_to TRAIN_EXAMPLES (y_train c)) (\<lambda>y_train1.
     bind_result (to_categorical_array y_train1 num_classes) (\<lambda>y_train2.
     bind_result (slice_to TEST_EXAMPLES (y_test c)) (\<lambda>y_test1.
     bind_result (to_categorical_array y_test1 num_classes) (\<lambda>y_test2.
       Inr \<lparr>x_train = divide_by 255 (astype_float32 x_train2), y_train = y_train2,
            x_test = divide_by 255 x_test2, y_test = y_test2\<rparr>))))))))"

text \<open>
  Modelled from the spec: \<open>numpy.random.choice(a, size, replace=False)\<close> is a function of
  the NumPy library (part_001 lines 94 and 97, part_002 lines 460 and 463). The spec
  describes it: "uniform random selection without replacement", which "fails if requested
  sample count exceeds corpus size". The random order in which the generator draws the
  indices below \<open>a\<close> is the parameter \<open>permutation\<close>; the selection is its first
  \<open>size\<close> indices (\<open>n\<close> below). The requested count is a natural number.
\<close>

definition random_choice :: "nat list \<Rightarrow> nat \<Rightarrow> nat \<Rightarrow> error + nat list" where
  "random_choice permutation a n =
     (if a < n then Inl ValueError else Inr (take n permutation))"

text \<open>
  Lines 93-107 of part_001 and 459-475 of part_002, which are the same statements: the
  subsampling of both splits by random masks, the normalization and the label encoding.
\<close>

definition subsample ::
  "nat list \<Rightarrow> nat list \<Rightarrow> nat \<Rightarrow> nat \<Rightarrow> corpus \<Rightarrow> error + loaded" where
  "subsample train_permutation test_permutation TRAIN_EXAMPLES TEST_EXAMPLES c =
     bind_result (shape0 (x_train c)) (\<lambda>n_train.
     bind_result (random_choice train_permutation n_train TRAIN_EXAMPLES) (\<lambda>train_mask.
     bind_result (take_rows_all train_mask (x_train c)) (\<lambda>x_train1.
     bind_result (take_rows train_mask (y_train c)) (\<lambda>y_train1.
     bind_result (shape0 (x_test c)) (\<lambda>n_test.
     bind_result (random_choice test_permutation n_test TEST_EXAMPLES) (\<lambda>test_mask.
     bind_result (take_rows_all test_mask (x_test c)) (\<lambda>x_test1.
     bind_result (take_rows test_mask (y_test c)) (\<lambda>y_test1.
     bind_result (to_categorical_array y_train1 num_classes) (\<lambda>y_train2.
     bind_result (to_categorical_array y_test1 num_classes) (\<lambda>y_test2.
       Inr \<lparr>x_train = divide_by 255 (astype_float32 x_train1), y_train = y_train2,
            x_test = divide_by 255 (astype_float32 x_test1), y_test = y_test2\<rparr>))))))))))"

text \<open>The loading cell of part_001 (lines 80-107): images flattened to 784 features.\<close>

definition load_part_001 ::
  "nat list \<Rightarrow> nat list \<Rightarrow> nat \<Rightarrow> nat \<Rightarrow> corpus \<Rightarrow> error + loaded" where
  "load_part_001 train_permutation test_permutation TRAIN_EXAMPLES TEST_EXAMPLES c =
     bind_result (reshape [60000, 28 * 28] (x_train c)) (\<lambda>x_train1.
     bind_result (reshape [10000, 28 * 28] (x_test c)) (\<lambda>x_test1.
       subsample train_permutation test_permutation TRAIN_EXAMPLES TEST_EXAMPLES
         (c\<lparr>x_train := x_train1, x_test := x_test1\<rparr>)))"

text \<open>
  The loading statements of part_002 (lines 441-475): images reshaped to 28 x 28 x 1,
  with the number of rows read from the array.
\<close>

definition load_part_002 ::
  "nat list \<Rightarrow> nat list \<Rightarrow> nat \<Rightarrow> nat \<Rightarrow> corpus \<Rightarrow> error + loaded" where
  "load_part_002 train_permutation test_permutation TRAIN_EXAMPLES TEST_EXAMPLES c =
     bind_result (shape0 (x_train c)) (\<lambda>n_train.
     bind_result (reshape [n_train, 28, 28, 1] (x_train c)) (\<lambda>x_train1.
     bind_result (shape0 (x_test c)) (\<lambda>n_test.
     bind_result (reshape [n_test, 28, 28, 1] (x_test c)) (\<lambda>x_test1.
       subsample train_permutation test_permutation TRAIN_EXAMPLES TEST_EXAMPLES
         (c\<lparr>x_train := x_train1, x_test := x_test1\<rparr>)))))"

section \<open>Training and its history\<close>

text \<open>
  Modelled from the spec: \<open>model.fit\<close> is a method of the Keras library, called at
  part_000 lines 160-165, part_001 lines 331-332 and part_002 lines 500-504. The spec
  (Trainer, Training History) describes it: the epochs run strictly in sequence; at the
  end of each epoch one record of loss, accuracy, validation loss and validation accuracy
  is appended to the history; there is no early stopping, and a failure in an epoch aborts
  the run. What one epoch does to the parameters and which metrics it reports (batching,
  loss, optimizer) is Keras' own and is the parameter \<open>run_epoch\<close>. The parameters are
  updated in place, so a run that fails leaves the parameters and the records of the
  epochs completed before the failure; the result is the error (if any), the parameters
  and the records.
\<close>

record 'v metrics =
  loss :: 'v
  acc :: 'v
  val_loss :: 'v
  val_acc :: 'v

record 'v epoch_record = "'v metrics" +
  epoch :: nat

definition record_of :: "nat \<Rightarrow> 'v metrics \<Rightarrow> 'v epoch_record" where
  "record_of e m = \<lparr>loss = loss m, acc = acc m, val_loss = val_loss m,
                    val_acc = val_acc m, epoch = e\<rparr>"

fun fit_epochs ::
  "('p \<Rightarrow> nat \<Rightarrow> error + 'p \<times> 'v metrics) \<Rightarrow> nat list \<Rightarrow> 'p \<Rightarrow> 'v epoch_record list
   \<Rightarrow> error option \<times> 'p \<times> 'v epoch_record list" where
  "fit_epochs run_epoch [] p h = (None, p, h)"
| "fit_epochs run_epoch (e # es) p h =
     (case run_epoch p e of
        Inl err \<Rightarrow> (Some err, p, h)
      | Inr (p', m) \<Rightarrow> fit_epochs run_epoch es p' (h @ [record_of e m]))"

definition fit ::
  "('p \<Rightarrow> nat \<Rightarrow> error + 'p \<times> 'v metrics) \<Rightarrow> 'p \<Rightarrow> nat
   \<Rightarrow> error option \<times> 'p \<times> 'v epoch_record list" where
  "fit run_epoch p epochs = fit_epochs run_epoch [0..<epochs] p []"

section \<open>The experiment counter and the log directories\<close>

text \<open>
  \<open>'./logs/experiment-{}'.format(EXPERIMENT_COUNTER)\<close> (part_000 line 157): the decimal
  representation of a Python integer, appended to the fixed prefix.
\<close>

definition digit_char :: "nat \<Rightarrow> char" where
  "digit_char d = char_of (48 + d)"

fun str_nat :: "nat \<Rightarrow> string" where
  "str_nat n =
     (if n < 10 then [digit_char n] else str_nat (n div 10) @ [digit_char (n mod 10)])"

declare str_nat.simps [simp del]

definition str_int :: "int \<Rightarrow> string" where
  "str_int i = (if i < 0 then CHR ''-'' # str_nat (nat (- i)) else str_nat (nat i))"

definition experiment_dir :: "int \<Rightarrow> string" where
  "experiment_dir c = ''./logs/experiment-'' @ str_int c"

text \<open>
  The notebook state that the training cell of part_000 (lines 157-166) reads and
  writes: the global \<open>EXPERIMENT_COUNTER\<close>, the parameters of \<open>model\<close>, the global
  \<open>history\<close> (unbound until a call of \<open>fit\<close> returns), and the log sink. The sink is the
  sequence of runs of the cell, each with the directory its TensorBoard callback was
  given, the records the callback wrote there (one per completed epoch) and whether the
  call of \<open>fit\<close> returned.
\<close>

record 'v run =
  log_dir :: string
  events :: "'v epoch_record list"
  completed :: bool

record ('p, 'v) notebook =
  EXPERIMENT_COUNTER :: int
  model :: 'p
  history :: "'v epoch_record list option"
  runs :: "'v run list"

definition epochs :: nat where
  "epochs = 10"

text \<open>Part_000 line 120: \<open>EXPERIMENT_COUNTER = 1\<close>.\<close>

definition counter_cell :: "('p, 'v) notebook \<Rightarrow> ('p, 'v) notebook" where
  "counter_cell s = s\<lparr>EXPERIMENT_COUNTER := 1\<rparr>"

text \<open>
  Part_000 lines 157-166. The callback is built from the counter's current value; \<open>fit\<close>
  runs with it; only when \<open>fit\<close> returns are \<open>history\<close> bound and the counter
  incremented. An exception from \<open>fit\<close> ends the cell before both statements. The result
  is the new state and the exception the cell ended with, if any.
\<close>

definition train_cell ::
  "('p \<Rightarrow> nat \<Rightarrow> error + 'p \<times> 'v metrics) \<Rightarrow> ('p, 'v) notebook
   \<Rightarrow> ('p, 'v) notebook \<times> error option" where
  "train_cell run_epoch s =
     (let tensorboard = experiment_dir (EXPERIMENT_COUNTER s) in
      case fit run_epoch (model s) epochs of
        (Some err, p, h) \<Rightarrow>
          (s\<lparr>model := p,
             runs := runs s @ [\<lparr>log_dir = tensorboard, events = h, completed = False\<rparr>]\<rparr>,
           Some err)
      | (None, p, h) \<Rightarrow>
          (s\<lparr>model := p,
             runs := runs s @ [\<lparr>log_dir = tensorboard, events = h, completed = True\<rparr>],
             history := Some h,
             EXPERIMENT_COUNTER := EXPERIMENT_COUNTER s + 1\<rparr>,
           None))"

text \<open>
  A session: the training cell executed once for each element of the list, which gives
  the behaviour of the epochs of that execution. A failed execution does not end the
  session: the cell can be run again. The counter cell is not executed again within a
  session: executing it starts the numbering afresh.
\<close>

fun session ::
  "('p \<Rightarrow> nat \<Rightarrow> error + 'p \<times> 'v metrics) list \<Rightarrow> ('p, 'v) notebook \<Rightarrow> ('p, 'v) notebook" where
  "session [] s = s"
| "session (f # fs) s = session fs (fst (train_cell f s))"

text \<open>The number of completed runs among the first \<open>i\<close> runs of a list of runs.\<close>

definition completed_before :: "'v run list \<Rightarrow> nat \<Rightarrow> nat" where
  "completed_before rs i = length (filter completed (take i rs))"

section \<open>The notebooks up to the training call\<close>

text \<open>
  Under "run all" the cells run in order and the first exception stops the run. The
  loading cell comes first; the cells that build and compile the model do not depend on
  the data; then comes the call of \<open>fit\<close>. The result lists the datasets that \<open>fit\<close>
  was called with: none if the run stopped before the training cell.

  Part_000: the loading cell, the counter cell (line 120) and the training cell.
\<close>

definition train_part_000 ::
  "int \<Rightarrow> int \<Rightarrow> corpus \<Rightarrow> (loaded \<Rightarrow> 'p \<Rightarrow> nat \<Rightarrow> error + 'p \<times> 'v metrics)
   \<Rightarrow> ('p, 'v) notebook \<Rightarrow> ('p, 'v) notebook \<times> error option \<times> loaded list" where
  "train_part_000 TRAIN_EXAMPLES TEST_EXAMPLES c run_epoch s =
     (case load_part_000 TRAIN_EXAMPLES TEST_EXAMPLES c of
        Inl e \<Rightarrow> (s, Some e, [])
      | Inr d \<Rightarrow>
          (case train_cell (run_epoch d) (counter_cell s) of
             (s', raised) \<Rightarrow> (s', raised, [d])))"

text \<open>
  Part_001 (training cell at lines 331-332) and part_002 (lines 500-504): the loaded
  dataset is handed to \<open>fit\<close>. The result is the exception the run stopped with, the
  datasets \<open>fit\<close> was called with, the parameters and the history \<open>fit\<close> returned.
\<close>

definition train_on ::
  "error + loaded \<Rightarrow> (loaded \<Rightarrow> 'p \<Rightarrow> nat \<Rightarrow> error + 'p \<times> 'v metrics) \<Rightarrow> 'p
   \<Rightarrow> error option \<times> loaded list \<times> 'p \<times> 'v epoch_record list option" where
  "train_on load run_epoch p =
     (case load of
        Inl e \<Rightarrow> (Some e, [], p, None)
      | Inr d \<Rightarrow>
          (case fit (run_epoch d) p epochs of
             (Some e, p', h) \<Rightarrow> (Some e, [d], p', None)
           | (None, p', h) \<Rightarrow> (None, [d], p', Some h)))"

definition train_part_001 ::
  "nat list \<Rightarrow> nat list \<Rightarrow> nat \<Rightarrow> nat \<Rightarrow> corpus
   \<Rightarrow> (loaded \<Rightarrow> 'p \<Rightarrow> nat \<Rightarrow> error + 'p \<times> 'v metrics) \<Rightarrow> 'p
   \<Rightarrow> error option \<times> loaded list \<times> 'p \<times> 'v epoch_record list option" where
  "train_part_001 train_permutation test_permutation TRAIN_EXAMPLES TEST_EXAMPLES c =
     train_on (load_part_001 train_permutation test_permutation TRAIN_EXAMPLES TEST_EXAMPLES c)"

definition train_part_002 ::
  "nat list \<Rightarrow> nat list \<Rightarrow> nat \<Rightarrow> nat \<Rightarrow> corpus
   \<Rightarrow> (loaded \<Rightarrow> 'p \<Rightarrow> nat \<Rightarrow> error + 'p \<times> 'v metrics) \<Rightarrow> 'p
   \<Rightarrow> error option \<times> loaded list \<times> 'p \<times> 'v epoch_record list option" where
  "train_part_002 train_permutation test_permutation TRAIN_EXAMPLES TEST_EXAMPLES c =
     train_on (load_part_002 train_permutation test_permutation TRAIN_EXAMPLES TEST_EXAMPLES c)"

text \<open>
  The shape of the corpus that \<open>mnist.load_data()\<close> returns: 60000 training and 10000
  test images of 28 x 28 bytes, with one label below 10 for each image.
\<close>

definition images_of :: "nat \<Rightarrow> 8 word ndarray \<Rightarrow> bool" where
  "images_of n a = (shape a = [n, 28, 28] \<and> length (data a) = n * 28 * 28)"

definition labels_of :: "nat \<Rightarrow> 8 word ndarray \<Rightarrow> bool" where
  "labels_of n a =
     (shape a = [n] \<and> length (data a) = n \<and> list_all (\<lambda>y. unat y < num_classes) (data a))"

definition mnist_shaped :: "corpus \<Rightarrow> bool" where
  "mnist_shaped c =
     (images_of 60000 (x_train c) \<and> labels_of 60000 (y_train c) \<and>
      images_of 10000 (x_test c) \<and> labels_of 10000 (y_test c))"

text \<open>
  The sizes of a loaded dataset: the numbers of feature rows and of label rows of the
  training subset, then of the test subset.
\<close>

definition sizes :: "loaded \<Rightarrow> nat \<times> nat \<times> nat \<times> nat" where
  "sizes d = (rows (x_train d), length (y_train d), rows (x_test d), length (y_test d))"

text \<open>
  A corpus of the MNIST shape, for running the cells on: every training image is black
  (all bytes 0) and labelled 7, every test image is white (all bytes 255) and labelled 3.
\<close>

definition example_corpus :: corpus where
  "example_corpus =
     \<lparr>x_train = \<lparr>shape = [60000, 28, 28], data = replicate (60000 * 28 * 28) 0\<rparr>,
      y_train = \<lparr>shape = [60000], data = replicate 60000 7\<rparr>,
      x_test = \<lparr>shape = [10000, 28, 28], data = replicate (10000 * 28 * 28) 255\<rparr>,
      y_test = \<lparr>shape = [10000], data = replicate 10000 3\<rparr>\<rparr>"

text \<open>
  A random order of the indices below \<open>n\<close>, as the generator draws it: each index once.
\<close>

definition permutation_of :: "nat \<Rightarrow> nat list \<Rightarrow> bool" where
  "permutation_of n p = (length p = n \<and> distinct p \<and> list_all (\<lambda>i. i < n) p)"

text \<open>
  For running the cells: an epoch that succeeds and reports fixed metrics, an epoch that
  raises, and a notebook before its first training run.
\<close>

definition example_epoch :: "loaded \<Rightarrow> nat \<Rightarrow> nat \<Rightarrow> error + nat \<times> nat metrics" where
  "example_epoch d p e = Inr (Suc p, \<lparr>loss = 0, acc = 1, val_loss = 0, val_acc = 1\<rparr>)"

definition failing_epoch :: "loaded \<Rightarrow> nat \<Rightarrow> nat \<Rightarrow> error + nat \<times> nat metrics" where
  "failing_epoch d p e = Inl TrainingError"

definition fresh_notebook :: "(nat, nat) notebook" where
  "fresh_notebook = \<lparr>EXPERIMENT_COUNTER = 1, model = 0, history = None, runs = []\<rparr>"

section \<open>Properties of the label encoding\<close>

lemma argmax_scan_dominated:
  "(\<And>x. x \<in> set xs \<Longrightarrow> x \<le> best) \<Longrightarrow> argmax_scan xs i best best_i = best_i"
proof (induction xs arbitrary: i)
  case Nil
  show ?case by simp
next
  case (Cons x xs)
  have "x \<le> best" using Cons.prems by simp
  then have "\<not> best < x" by simp
  moreover have "argmax_scan xs (Suc i) best best_i = best_i"
    using Cons.IH Cons.prems by simp
  ultimately show ?case by simp
qed

lemma argmax_scan_append:
  "(\<And>x. x \<in> set xs \<Longrightarrow> x \<le> best) \<Longrightarrow>
   argmax_scan (xs @ ys) i best best_i = argmax_scan ys (i + length xs) best best_i"
proof (induction xs arbitrary: i)
  case Nil
  show ?case by simp
next
  case (Cons x xs)
  have "x \<le> best" using Cons.prems by simp
  then have nless: "\<not> best < x" by simp
  have "argmax_scan (xs @ ys) (Suc i) best best_i
        = argmax_scan ys (Suc i + length xs) best best_i"
    using Cons.IH Cons.prems by simp
  with nless show ?case by simp
qed

lemma one_hot_split:
  assumes "y < K"
  shows "one_hot K y = replicate y 0 @ 1 # replicate (K - Suc y) 0"
proof (rule nth_equalityI)
  show "length (one_hot K y) = length (replicate y 0 @ 1 # replicate (K - Suc y) (0::rat))"
    using assms by (simp add: one_hot_def)
next
  fix i assume "i < length (one_hot K y)"
  then have iK: "i < K" by (simp add: one_hot_def)
  then show "one_hot K y ! i = (replicate y 0 @ 1 # replicate (K - Suc y) (0::rat)) ! i"
    using assms by (auto simp: one_hot_def nth_append nth_Cons')
qed

lemma length_one_hot: "length (one_hot K y) = K"
  by (simp add: one_hot_def)

lemma nth_one_hot: "j < K \<Longrightarrow> one_hot K y ! j = (if j = y then 1 else 0)"
  by (simp add: one_hot_def)

lemma sum_list_one_hot: "y < K \<Longrightarrow> sum_list (one_hot K y) = 1"
  by (simp add: one_hot_split sum_list_replicate)

lemma argmax_one_hot:
  assumes "y < K"
  shows "argmax (one_hot K y) = Inr y"
proof (cases y)
  case 0
  then have "one_hot K y = 1 # replicate (K - Suc 0) 0"
    using assms one_hot_split [of y K] by simp
  moreover have "argmax_scan (replicate (K - Suc 0) 0) 1 1 0 = 0"
    by (rule argmax_scan_dominated) simp
  ultimately show ?thesis
    using 0 by (simp add: argmax_def)
next
  case (Suc n)
  then have v: "one_hot K y = 0 # (replicate n 0 @ 1 # replicate (K - Suc y) 0)"
    using assms one_hot_split [of y K] by simp
  have "argmax_scan (replicate n 0 @ 1 # replicate (K - Suc y) 0) 1 0 0
        = argmax_scan (1 # replicate (K - Suc y) 0) (1 + length (replicate n (0::rat))) 0 0"
    by (rule argmax_scan_append) simp
  also have "\<dots> = argmax_scan (replicate (K - Suc y) 0) (Suc (Suc n)) 1 (Suc n)"
    by simp
  also have "\<dots> = Suc n"
    by (rule argmax_scan_dominated) simp
  finally show ?thesis
    using v Suc by (simp add: argmax_def)
qed

lemma count_ones_one_hot:
  assumes "y < K"
  shows "length (filter (\<lambda>x. x = 1) (one_hot K y)) = 1"
  using assms by (simp add: one_hot_split)

text \<open>
  C3. For every label \<open>y\<close> with \<open>0 \<le> y < K\<close>, encoding it with \<open>K\<close> classes succeeds and
  gives a vector of length \<open>K\<close> whose entries sum to 1, with exactly one entry equal to 1,
  at index \<open>y\<close>, every other entry 0, and whose argmax is \<open>y\<close>.
\<close>

theorem one_hot_roundtrip:
  assumes "y < K"
  shows "\<exists>v. to_categorical [y] K = Inr [v] \<and> length v = K \<and> sum_list v = 1 \<and>
             v ! y = 1 \<and> length (filter (\<lambda>x. x = 1) v) = 1 \<and>
             (\<forall>j<K. j \<noteq> y \<longrightarrow> v ! j = 0) \<and> argmax v = Inr y"
proof -
  have "to_categorical [y] K = Inr [one_hot K y]"
    using assms by (simp add: to_categorical_def)
  moreover have "length (one_hot K y) = K"
    by (rule length_one_hot)
  moreover have "sum_list (one_hot K y) = 1"
    using assms by (rule sum_list_one_hot)
  moreover have "one_hot K y ! y = 1"
    using assms by (simp add: nth_one_hot)
  moreover have "length (filter (\<lambda>x. x = 1) (one_hot K y)) = 1"
    using assms by (rule count_ones_one_hot)
  moreover have "\<forall>j<K. j \<noteq> y \<longrightarrow> one_hot K y ! j = 0"
    by (simp add: nth_one_hot)
  moreover have "argmax (one_hot K y) = Inr y"
    using assms by (rule argmax_one_hot)
  ultimately show ?thesis by blast
qed

theorem one_hot_roundtrip_witness:
  "(7::nat) < 10 \<and> to_categorical [7] 10 = Inr [[0, 0, 0, 0, 0, 0, 0, 1, 0, 0]] \<and>
   argmax [0, 0, 0, 0, 0, 0, 0, 1, 0, 0] = Inr 7 \<and>
   sum_list [0, 0, 0, 0, 0, 0, 0, 1, 0, 0 :: rat] = 1"
proof -
  have h: "(7::nat) < 10" by simp
  have v: "to_categorical [7] 10 = Inr [[0, 0, 0, 0, 0, 0, 0, 1, 0, 0]]"
    by (simp add: to_categorical_def one_hot_def upt_rec)
  from one_hot_roundtrip [OF h] v
  have "argmax [0, 0, 0, 0, 0, 0, 0, 1, 0, 0] = Inr 7 \<and>
        sum_list [0, 0, 0, 0, 0, 0, 0, 1, 0, 0 :: rat] = 1"
    by auto
  with h v show ?thesis by simp
qed

section \<open>Properties of the confusion matrix\<close>

lemma sum_list_indicator_upt:
  "sum_list (map (\<lambda>j. if a = j \<and> c then 1 else 0) [0..<K]) = (if a < K \<and> c then (1::nat) else 0)"
  by (induction K) auto

lemma sum_list_filter_classes:
  "sum_list (map (\<lambda>j. length (filter (\<lambda>z. f z = j \<and> P z) zs)) [0..<K])
   = length (filter (\<lambda>z. f z < K \<and> P z) zs)"
proof (induction zs)
  case Nil
  show ?case by simp
next
  case (Cons z zs)
  have "sum_list (map (\<lambda>j. length (filter (\<lambda>z. f z = j \<and> P z) (z # zs))) [0..<K])
        = sum_list (map (\<lambda>j. (if f z = j \<and> P z then 1 else 0)
                              + length (filter (\<lambda>z. f z = j \<and> P z) zs)) [0..<K])"
    by (rule arg_cong [where f = sum_list]) simp
  also have "\<dots> = sum_list (map (\<lambda>j. if f z = j \<and> P z then 1 else 0) [0..<K])
                  + sum_list (map (\<lambda>j. length (filter (\<lambda>z. f z = j \<and> P z) zs)) [0..<K])"
    by (rule sum_list_addf)
  also have "\<dots> = (if f z < K \<and> P z then 1 else 0) + length (filter (\<lambda>z. f z < K \<and> P z) zs)"
    by (simp only: sum_list_indicator_upt Cons.IH)
  also have "\<dots> = length (filter (\<lambda>z. f z < K \<and> P z) (z # zs))"
    by simp
  finally show ?case .
qed

lemma row_sum:
  "sum_list (map (\<lambda>j. cell_count zs i j) [0..<K])
   = length (filter (\<lambda>z. fst z = i \<and> snd z < K) zs)"
proof -
  have "sum_list (map (\<lambda>j. cell_count zs i j) [0..<K])
        = sum_list (map (\<lambda>j. length (filter (\<lambda>z. snd z = j \<and> fst z = i) zs)) [0..<K])"
    by (simp add: cell_count_def conj_commute)
  also have "\<dots> = length (filter (\<lambda>z. snd z < K \<and> fst z = i) zs)"
    by (rule sum_list_filter_classes)
  finally show ?thesis by (simp add: conj_commute)
qed

lemma grid_sum:
  "sum_list (map (\<lambda>i. sum_list (map (\<lambda>j. cell_count zs i j) [0..<K])) [0..<K])
   = length (filter (\<lambda>z. fst z < K \<and> snd z < K) zs)"
  by (simp only: row_sum sum_list_filter_classes)

lemma diagonal_sum:
  "sum_list (map (\<lambda>i. cell_count zs i i) [0..<K])
   = length (filter (\<lambda>z. fst z < K \<and> fst z = snd z) zs)"
proof -
  have "sum_list (map (\<lambda>i. cell_count zs i i) [0..<K])
        = sum_list (map (\<lambda>i. length (filter (\<lambda>z. fst z = i \<and> fst z = snd z) zs)) [0..<K])"
  proof -
    have "cell_count zs i i = length (filter (\<lambda>z. fst z = i \<and> fst z = snd z) zs)" for i
      unfolding cell_count_def
      by (rule arg_cong [where f = length], rule filter_cong [OF refl]) auto
    then show ?thesis by simp
  qed
  also have "\<dots> = length (filter (\<lambda>z. fst z < K \<and> fst z = snd z) zs)"
    by (rule sum_list_filter_classes)
  finally show ?thesis .
qed

lemma filter_all: "(\<And>z. z \<in> set zs \<Longrightarrow> P z) \<Longrightarrow> filter P zs = zs"
  by (induction zs) auto

lemma cell_count_card:
  assumes "length y_true = length y_pred"
  shows "cell_count (zip y_true y_pred) i j
         = card {n. n < length y_true \<and> y_true ! n = i \<and> y_pred ! n = j}"
proof -
  have "cell_count (zip y_true y_pred) i j
        = card {n. n < length (zip y_true y_pred)
                 \<and> fst (zip y_true y_pred ! n) = i \<and> snd (zip y_true y_pred ! n) = j}"
    by (simp add: cell_count_def length_filter_conv_card)
  also have "{n. n < length (zip y_true y_pred)
                 \<and> fst (zip y_true y_pred ! n) = i \<and> snd (zip y_true y_pred ! n) = j}
             = {n. n < length y_true \<and> y_true ! n = i \<and> y_pred ! n = j}"
    using assms by auto
  finally show ?thesis .
qed

lemma zip_member:
  "z \<in> set (zip xs ys) \<Longrightarrow> fst z \<in> set xs \<and> snd z \<in> set ys"
  by (cases z) (auto dest: set_zip_leftD set_zip_rightD)

lemma confusion_matrix_shape:
  assumes "length y_true = length y_pred"
  shows "\<exists>m. confusion_matrix K y_true y_pred = Inr m \<and> length m = K \<and>
             list_all (\<lambda>row. length row = K) m \<and>
             (\<forall>i<K. \<forall>j<K. m ! i ! j = cell_count (zip y_true y_pred) i j)"
  using assms by (simp add: confusion_matrix_def list_all_iff)

lemma confusion_matrix_total:
  assumes "confusion_matrix K y_true y_pred = Inr m"
    and "\<And>t. t \<in> set y_true \<Longrightarrow> t < K" and "\<And>p. p \<in> set y_pred \<Longrightarrow> p < K"
  shows "total m = length y_true"
proof -
  have len: "length y_true = length y_pred"
    using assms(1) by (simp add: confusion_matrix_def split: if_splits)
  have m: "m = map (\<lambda>i. map (\<lambda>j. cell_count (zip y_true y_pred) i j) [0..<K]) [0..<K]"
    using assms(1) by (simp add: confusion_matrix_def split: if_splits)
  have "total m = length (filter (\<lambda>z. fst z < K \<and> snd z < K) (zip y_true y_pred))"
    unfolding total_def m map_map comp_def by (rule grid_sum)
  also have "filter (\<lambda>z. fst z < K \<and> snd z < K) (zip y_true y_pred) = zip y_true y_pred"
  proof (rule filter_all)
    fix z assume "z \<in> set (zip y_true y_pred)"
    then have "fst z \<in> set y_true" and "snd z \<in> set y_pred"
      by (simp_all add: zip_member)
    then show "fst z < K \<and> snd z < K"
      using assms(2,3) by simp
  qed
  finally show ?thesis using len by simp
qed

lemma confusion_matrix_diagonal:
  assumes "confusion_matrix K y_true y_pred = Inr m"
    and "\<And>t. t \<in> set y_true \<Longrightarrow> t < K"
  shows "diagonal m = correct_predictions y_true y_pred"
proof -
  have m: "m = map (\<lambda>i. map (\<lambda>j. cell_count (zip y_true y_pred) i j) [0..<K]) [0..<K]"
    using assms(1) by (simp add: confusion_matrix_def split: if_splits)
  have "diagonal m = sum_list (map (\<lambda>i. cell_count (zip y_true y_pred) i i) [0..<K])"
    unfolding diagonal_def
    by (rule arg_cong [where f = sum_list]) (simp add: m)
  also have "\<dots> = length (filter (\<lambda>z. fst z < K \<and> fst z = snd z) (zip y_true y_pred))"
    by (rule diagonal_sum)
  also have "filter (\<lambda>z. fst z < K \<and> fst z = snd z) (zip y_true y_pred)
             = filter (\<lambda>z. fst z = snd z) (zip y_true y_pred)"
  proof (rule filter_cong [OF refl])
    fix z assume "z \<in> set (zip y_true y_pred)"
    then have "fst z \<in> set y_true"
      by (simp add: zip_member)
    then show "(fst z < K \<and> fst z = snd z) = (fst z = snd z)"
      using assms(2) by simp
  qed
  finally show ?thesis by (simp add: correct_predictions_def)
qed

lemma correct_predictions_card:
  assumes "length y_true = length y_pred"
  shows "correct_predictions y_true y_pred
         = card {n. n < length y_true \<and> y_true ! n = y_pred ! n}"
proof -
  have "correct_predictions y_true y_pred
        = card {n. n < length (zip y_true y_pred)
                 \<and> fst (zip y_true y_pred ! n) = snd (zip y_true y_pred ! n)}"
    by (simp add: correct_predictions_def length_filter_conv_card)
  also have "{n. n < length (zip y_true y_pred)
                 \<and> fst (zip y_true y_pred ! n) = snd (zip y_true y_pred ! n)}
             = {n. n < length y_true \<and> y_true ! n = y_pred ! n}"
    using assms by auto
  finally show ?thesis .
qed

lemma accuracy_times_total:
  assumes "accuracy y_true y_pred = Some a"
  shows "a * of_nat (length y_true) = of_nat (correct_predictions y_true y_pred)"
  using assms by (auto simp: accuracy_def split: if_splits)

text \<open>
  C4. For \<open>N\<close> evaluated examples over \<open>K\<close> classes (true and predicted classes in
  [0, K)), the confusion matrix is a \<open>K\<close> by \<open>K\<close> grid whose cell \<open>(i, j)\<close> is the number
  of examples of true class \<open>i\<close> predicted as class \<open>j\<close>; its cells sum to \<open>N\<close>; its
  diagonal sums to the number of correct predictions, which is the accuracy times \<open>N\<close>.
\<close>

theorem confusion_matrix_counts:
  assumes "length y_true = N" and "length y_pred = N"
    and "\<forall>t\<in>set y_true. t < K" and "\<forall>p\<in>set y_pred. p < K"
  shows "\<exists>m. confusion_matrix K y_true y_pred = Inr m \<and> length m = K \<and>
             list_all (\<lambda>row. length row = K) m \<and>
             (\<forall>i<K. \<forall>j<K. m ! i ! j = card {n. n < N \<and> y_true ! n = i \<and> y_pred ! n = j}) \<and>
             total m = N \<and>
             diagonal m = card {n. n < N \<and> y_true ! n = y_pred ! n} \<and>
             diagonal m = correct_predictions y_true y_pred \<and>
             (\<forall>a. accuracy y_true y_pred = Some a \<longrightarrow> a * of_nat N = of_nat (diagonal m))"
proof -
  have len: "length y_true = length y_pred"
    using assms(1,2) by simp
  from confusion_matrix_shape [OF len, of K] obtain m where
    m: "confusion_matrix K y_true y_pred = Inr m" and lm: "length m = K"
    and rows: "list_all (\<lambda>row. length row = K) m"
    and cells: "\<forall>i<K. \<forall>j<K. m ! i ! j = cell_count (zip y_true y_pred) i j"
    by blast
  have c: "\<forall>i<K. \<forall>j<K. m ! i ! j = card {n. n < N \<and> y_true ! n = i \<and> y_pred ! n = j}"
    using cells cell_count_card [OF len] assms(1) by simp
  have t: "total m = N"
    using confusion_matrix_total [OF m] assms(1,3,4) by simp
  have d: "diagonal m = correct_predictions y_true y_pred"
    using confusion_matrix_diagonal [OF m] assms(3) by simp
  have d': "diagonal m = card {n. n < N \<and> y_true ! n = y_pred ! n}"
    using d correct_predictions_card [OF len] assms(1) by simp
  have a: "\<forall>a. accuracy y_true y_pred = Some a \<longrightarrow> a * of_nat N = of_nat (diagonal m)"
    using accuracy_times_total [of y_true y_pred] assms(1) d by simp
  from m lm rows c t d d' a show ?thesis by blast
qed

theorem confusion_matrix_counts_witness:
  "confusion_matrix 3 [0, 1, 2, 1] [0, 2, 2, 1] = Inr [[1, 0, 0], [0, 1, 1], [0, 0, 1]] \<and>
   total [[1, 0, 0], [0, 1, 1], [0, 0, 1]] = 4 \<and>
   diagonal [[1, 0, 0], [0, 1, 1], [0, 0, 1]] = 3 \<and>
   correct_predictions [0, 1, 2, 1] [0, 2, 2, 1] = 3 \<and>
   accuracy [0, 1, 2, 1] [0, 2, 2, 1] = Some (3 / 4)"
proof -
  have m: "confusion_matrix 3 [0, 1, 2, 1] [0, 2, 2, 1] = Inr [[1, 0, 0], [0, 1, 1], [0, 0, 1]]"
    by (simp add: confusion_matrix_def cell_count_def upt_rec)
  have a: "accuracy [0, 1, 2, 1] [0, 2, 2, 1] = Some (3 / 4)"
    by (simp add: accuracy_def correct_predictions_def)
  have "length [0, 1, 2, 1 :: nat] = 4" and "length [0, 2, 2, 1 :: nat] = 4"
    and "\<forall>t\<in>set [0, 1, 2, 1 :: nat]. t < 3" and "\<forall>p\<in>set [0, 2, 2, 1 :: nat]. p < 3"
    by simp_all
  from confusion_matrix_counts [OF this] m
  have "total [[1, 0, 0], [0, 1, 1], [0, 0, 1]] = 4 \<and>
        diagonal [[1, 0, 0], [0, 1, 1], [0, 0, 1]] = correct_predictions [0, 1, 2, 1] [0, 2, 2, 1]"
    by auto
  moreover have "correct_predictions [0, 1, 2, 1] [0, 2, 2, 1] = 3"
    by (simp add: correct_predictions_def)
  ultimately show ?thesis using m a by simp
qed

text \<open>
  Part_001 line 574 decodes the one-hot test labels with \<open>numpy.argmax(y_test, 1)\<close>
  before it tabulates: the decoded rows are the labels themselves.
\<close>

lemma argmax_rows_one_hot:
  "list_all (\<lambda>y. y < K) ys \<Longrightarrow> argmax_rows (map (one_hot K) ys) = Inr ys"
  by (induction ys) (simp_all add: argmax_one_hot)

section \<open>Properties of the training history\<close>

lemma fit_epochs_epochs:
  "fit_epochs run_epoch es p h = (None, p', h') \<Longrightarrow> map epoch h' = map epoch h @ es"
proof (induction es arbitrary: p h)
  case Nil
  then show ?case by simp
next
  case (Cons e es)
  from Cons.prems obtain q m where
    step: "run_epoch p e = Inr (q, m)"
    and rest: "fit_epochs run_epoch es q (h @ [record_of e m]) = (None, p', h')"
    by (auto split: sum.splits prod.splits)
  from Cons.IH [OF rest] show ?case
    by (simp add: record_of_def)
qed

lemma fit_epochs_reported:
  assumes "fit_epochs run_epoch es p h = (r, p', h')"
    and "x \<in> set h'" and "x \<notin> set h"
  shows "\<exists>q q' m. run_epoch q (epoch x) = Inr (q', m) \<and> x = record_of (epoch x) m"
  using assms
proof (induction es arbitrary: p h)
  case Nil
  then show ?case by simp
next
  case (Cons e es)
  show ?case
  proof (cases "run_epoch p e")
    case (Inl err)
    with Cons.prems show ?thesis by simp
  next
    case (Inr qm)
    obtain q m where qm: "qm = (q, m)" by (cases qm)
    with Inr Cons.prems(1)
    have rest: "fit_epochs run_epoch es q (h @ [record_of e m]) = (r, p', h')"
      by simp
    show ?thesis
    proof (cases "x \<in> set (h @ [record_of e m])")
      case True
      with Cons.prems(3) have x: "x = record_of e m" by simp
      then have e: "epoch x = e" by (simp add: record_of_def)
      have "run_epoch p (epoch x) = Inr (q, m)" using Inr qm e by simp
      moreover have "x = record_of (epoch x) m" using x e by simp
      ultimately show ?thesis by blast
    next
      case False
      from Cons.IH [OF rest Cons.prems(2) False] show ?thesis .
    qed
  qed
qed

text \<open>
  C7. After a successful training run configured with \<open>E\<close> epochs the history has exactly
  \<open>E\<close> records, whose epoch indices are 0, 1, ..., \<open>E - 1\<close> in this order (one per epoch,
  no gap), and each record holds the loss, accuracy, validation loss and validation
  accuracy that its epoch reported.
\<close>

theorem history_complete:
  assumes "fit run_epoch p E = (None, p', h)"
  shows "length h = E \<and> map epoch h = [0..<E] \<and>
         (\<forall>i<E. \<exists>q q' m. run_epoch q i = Inr (q', m) \<and>
                  epoch (h ! i) = i \<and> loss (h ! i) = loss m \<and> acc (h ! i) = acc m \<and>
                  val_loss (h ! i) = val_loss m \<and> val_acc (h ! i) = val_acc m)"
proof -
  have run: "fit_epochs run_epoch [0..<E] p [] = (None, p', h)"
    using assms by (simp add: fit_def)
  from fit_epochs_epochs [OF run] have idx: "map epoch h = [0..<E]"
    by simp
  then have len: "length h = E"
    by (metis length_map length_upt minus_nat.diff_0)
  have "\<exists>q q' m. run_epoch q i = Inr (q', m) \<and>
          epoch (h ! i) = i \<and> loss (h ! i) = loss m \<and> acc (h ! i) = acc m \<and>
          val_loss (h ! i) = val_loss m \<and> val_acc (h ! i) = val_acc m" if "i < E" for i
  proof -
    have mem: "h ! i \<in> set h" using that len by simp
    have "epoch (h ! i) = map epoch h ! i" using that len by simp
    then have e: "epoch (h ! i) = i" using idx that by simp
    from fit_epochs_reported [OF run mem] obtain q q' m where
      "run_epoch q (epoch (h ! i)) = Inr (q', m)" and "h ! i = record_of (epoch (h ! i)) m"
      by auto
    with e have "run_epoch q i = Inr (q', m)" and r: "h ! i = record_of i m"
      by simp_all
    moreover from r have "loss (h ! i) = loss m" "acc (h ! i) = acc m"
      "val_loss (h ! i) = val_loss m" "val_acc (h ! i) = val_acc m"
      by (simp_all add: record_of_def)
    ultimately show ?thesis using e by blast
  qed
  with len idx show ?thesis by blast
qed

theorem history_complete_witness:
  "fit (\<lambda>p e. Inr (Suc p, \<lparr>loss = 10 - p, acc = p, val_loss = 12 - p, val_acc = e\<rparr>)) 0 3
     = (None, 3 :: nat,
        [\<lparr>loss = 10, acc = 0, val_loss = 12, val_acc = 0, epoch = 0\<rparr>,
         \<lparr>loss = 9, acc = 1, val_loss = 11, val_acc = 1, epoch = 1\<rparr>,
         \<lparr>loss = 8 :: nat, acc = 2, val_loss = 10, val_acc = 2, epoch = 2\<rparr>]) \<and>
   length [\<lparr>loss = 10, acc = 0, val_loss = 12, val_acc = 0, epoch = 0\<rparr>,
           \<lparr>loss = 9, acc = 1, val_loss = 11, val_acc = 1, epoch = 1\<rparr>,
           \<lparr>loss = 8 :: nat, acc = 2, val_loss = 10, val_acc = 2, epoch = 2\<rparr>] = 3"
proof -
  have run: "fit (\<lambda>p e. Inr (Suc p, \<lparr>loss = 10 - p, acc = p, val_loss = 12 - p, val_acc = e\<rparr>)) 0 3
     = (None, 3 :: nat,
        [\<lparr>loss = 10, acc = 0, val_loss = 12, val_acc = 0, epoch = 0\<rparr>,
         \<lparr>loss = 9, acc = 1, val_loss = 11, val_acc = 1, epoch = 1\<rparr>,
         \<lparr>loss = 8 :: nat, acc = 2, val_loss = 10, val_acc = 2, epoch = 2\<rparr>])"
    by (simp add: fit_def upt_rec record_of_def numeral_3_eq_3)
  from history_complete [OF run] run show ?thesis by simp
qed

section \<open>Properties of the log directory names\<close>

lemma digit_char_inj:
  assumes "a < 10" and "b < 10" and "digit_char a = digit_char b"
  shows "a = b"
proof -
  from assms(3) have "of_char (digit_char a) = (of_char (digit_char b) :: nat)"
    by simp
  then show ?thesis using assms(1,2) by (simp add: digit_char_def)
qed

lemma digit_char_not_minus:
  assumes "d < 10"
  shows "digit_char d \<noteq> CHR ''-''"
proof
  assume "digit_char d = CHR ''-''"
  then have "of_char (digit_char d) = (of_char (CHR ''-'') :: nat)"
    by simp
  then show False using assms by (simp add: digit_char_def)
qed

lemma str_nat_nonempty: "str_nat n \<noteq> []"
  by (subst str_nat.simps) simp

lemma str_nat_inj: "str_nat n = str_nat m \<Longrightarrow> n = m"
proof (induction n arbitrary: m rule: str_nat.induct)
  case (1 n)
  show ?case
  proof (cases "n < 10")
    case n: True
    show ?thesis
    proof (cases "m < 10")
      case True
      with n "1.prems" show ?thesis
        by (simp add: str_nat.simps [of n] str_nat.simps [of m] digit_char_inj)
    next
      case False
      with n "1.prems" str_nat_nonempty [of "m div 10"] show ?thesis
        by (simp add: str_nat.simps [of n] str_nat.simps [of m])
    qed
  next
    case n: False
    show ?thesis
    proof (cases "m < 10")
      case True
      with n "1.prems" str_nat_nonempty [of "n div 10"] show ?thesis
        by (simp add: str_nat.simps [of n] str_nat.simps [of m])
    next
      case False
      with n "1.prems" have "str_nat (n div 10) = str_nat (m div 10)"
        and d: "digit_char (n mod 10) = digit_char (m mod 10)"
        by (simp_all add: str_nat.simps [of n] str_nat.simps [of m])
      then have "n div 10 = m div 10"
        using "1.IH" n by simp
      moreover have "n mod 10 = m mod 10"
        using d by (simp add: digit_char_inj)
      ultimately show ?thesis
        by (metis div_mult_mod_eq)
    qed
  qed
qed

lemma str_nat_no_minus: "hd (str_nat n) \<noteq> CHR ''-''"
proof (induction n rule: str_nat.induct)
  case (1 n)
  show ?case
  proof (cases "n < 10")
    case True
    then show ?thesis
      by (simp add: str_nat.simps [of n] digit_char_not_minus)
  next
    case False
    with "1.IH" str_nat_nonempty [of "n div 10"] show ?thesis
      by (simp add: str_nat.simps [of n])
  qed
qed

lemma str_int_inj: "str_int i = str_int j \<Longrightarrow> i = j"
proof -
  assume eq: "str_int i = str_int j"
  have neg_pos: False if "a < 0" and "\<not> b < 0" and "str_int a = str_int b" for a b
  proof -
    from that have "CHR ''-'' # str_nat (nat (- a)) = str_nat (nat b)"
      by (simp add: str_int_def)
    then have "hd (str_nat (nat b)) = CHR ''-''"
      by (metis list.sel(1))
    then show False using str_nat_no_minus by blast
  qed
  show "i = j"
  proof (cases "i < 0")
    case i: True
    show ?thesis
    proof (cases "j < 0")
      case True
      with i eq have "nat (- i) = nat (- j)"
        by (simp add: str_int_def str_nat_inj)
      with i True show ?thesis by simp
    next
      case False
      with i eq neg_pos show ?thesis by blast
    qed
  next
    case i: False
    show ?thesis
    proof (cases "j < 0")
      case True
      with i eq neg_pos [of j i] show ?thesis by simp
    next
      case False
      with i eq have "nat i = nat j"
        by (simp add: str_int_def str_nat_inj)
      with i False show ?thesis by simp
    qed
  qed
qed

lemma experiment_dir_inj: "experiment_dir c = experiment_dir d \<Longrightarrow> c = d"
  by (simp add: experiment_dir_def str_int_inj)

section \<open>Properties of the training cell and of a session\<close>

lemma train_cell_failed:
  assumes "snd (train_cell f s) = Some e"
  shows "EXPERIMENT_COUNTER (fst (train_cell f s)) = EXPERIMENT_COUNTER s \<and>
         history (fst (train_cell f s)) = history s \<and>
         (\<exists>h. runs (fst (train_cell f s))
                = runs s @ [\<lparr>log_dir = experiment_dir (EXPERIMENT_COUNTER s),
                               events = h, completed = False\<rparr>])"
  using assms by (auto simp: train_cell_def Let_def split: prod.splits option.splits)

lemma train_cell_completed:
  assumes "snd (train_cell f s) = None"
  shows "EXPERIMENT_COUNTER (fst (train_cell f s)) = EXPERIMENT_COUNTER s + 1 \<and>
         (\<exists>h. history (fst (train_cell f s)) = Some h \<and>
              runs (fst (train_cell f s))
                = runs s @ [\<lparr>log_dir = experiment_dir (EXPERIMENT_COUNTER s),
                               events = h, completed = True\<rparr>])"
  using assms by (auto simp: train_cell_def Let_def split: prod.splits option.splits)

lemma train_cell_run:
  "\<exists>r. runs (fst (train_cell f s)) = runs s @ [r] \<and>
       log_dir r = experiment_dir (EXPERIMENT_COUNTER s) \<and>
       completed r = (snd (train_cell f s) = None) \<and>
       EXPERIMENT_COUNTER (fst (train_cell f s))
         = EXPERIMENT_COUNTER s + (if completed r then 1 else 0)"
proof (cases "snd (train_cell f s)")
  case None
  from train_cell_completed [OF None] obtain h where
    "runs (fst (train_cell f s))
       = runs s @ [\<lparr>log_dir = experiment_dir (EXPERIMENT_COUNTER s),
                      events = h, completed = True\<rparr>]"
    and "EXPERIMENT_COUNTER (fst (train_cell f s)) = EXPERIMENT_COUNTER s + 1"
    by blast
  with None show ?thesis
    by (intro exI [of _ "\<lparr>log_dir = experiment_dir (EXPERIMENT_COUNTER s),
                             events = h, completed = True\<rparr>"]) simp
next
  case (Some e)
  from train_cell_failed [OF Some] obtain h where
    "runs (fst (train_cell f s))
       = runs s @ [\<lparr>log_dir = experiment_dir (EXPERIMENT_COUNTER s),
                      events = h, completed = False\<rparr>]"
    and "EXPERIMENT_COUNTER (fst (train_cell f s)) = EXPERIMENT_COUNTER s"
    by blast
  with Some show ?thesis
    by (intro exI [of _ "\<lparr>log_dir = experiment_dir (EXPERIMENT_COUNTER s),
                             events = h, completed = False\<rparr>"]) simp
qed

lemma session_append: "session (fs @ [f]) s = fst (train_cell f (session fs s))"
  by (induction fs arbitrary: s) simp_all

lemma completed_before_all: "length rs \<le> i \<Longrightarrow> completed_before rs i = length (filter completed rs)"
  by (simp add: completed_before_def)

lemma completed_before_append:
  "i \<le> length rs \<Longrightarrow> completed_before (rs @ [r]) i = completed_before rs i"
  by (simp add: completed_before_def)

lemma completed_before_Suc:
  "i < length rs \<Longrightarrow>
   completed_before rs (Suc i) = completed_before rs i + (if completed (rs ! i) then 1 else 0)"
  by (simp add: completed_before_def take_Suc_conv_app_nth)

lemma completed_before_mono:
  "i \<le> j \<Longrightarrow> completed_before rs i \<le> completed_before rs j"
proof (induction j)
  case 0
  then show ?case by simp
next
  case (Suc j)
  show ?case
  proof (cases "i = Suc j")
    case True
    then show ?thesis by simp
  next
    case False
    with Suc have le: "completed_before rs i \<le> completed_before rs j" by simp
    show ?thesis
    proof (cases "j < length rs")
      case True
      with le show ?thesis by (simp add: completed_before_Suc)
    next
      case False
      then have "completed_before rs (Suc j) = completed_before rs j"
        by (simp add: completed_before_def)
      with le show ?thesis by simp
    qed
  qed
qed

lemma completed_before_less:
  assumes "i < j" and "i < length rs" and "completed (rs ! i)"
  shows "completed_before rs i < completed_before rs j"
proof -
  have "completed_before rs (Suc i) = completed_before rs i + 1"
    using assms(2,3) by (simp add: completed_before_Suc)
  moreover have "completed_before rs (Suc i) \<le> completed_before rs j"
    using assms(1) by (simp add: completed_before_mono)
  ultimately show ?thesis by simp
qed

lemma session_runs:
  "\<exists>rs. runs (session fs s) = runs s @ rs \<and> length rs = length fs \<and>
        EXPERIMENT_COUNTER (session fs s)
          = EXPERIMENT_COUNTER s + int (length (filter completed rs)) \<and>
        (\<forall>i<length rs. log_dir (rs ! i)
            = experiment_dir (EXPERIMENT_COUNTER s + int (completed_before rs i)))"
proof (induction fs rule: rev_induct)
  case Nil
  show ?case by simp
next
  case (snoc f fs)
  then obtain rs where
    rs: "runs (session fs s) = runs s @ rs" and len: "length rs = length fs"
    and cnt: "EXPERIMENT_COUNTER (session fs s)
              = EXPERIMENT_COUNTER s + int (length (filter completed rs))"
    and dirs: "\<forall>i<length rs. log_dir (rs ! i)
                 = experiment_dir (EXPERIMENT_COUNTER s + int (completed_before rs i))"
    by blast
  from train_cell_run [of f "session fs s"] obtain r where
    r: "runs (fst (train_cell f (session fs s))) = runs (session fs s) @ [r]"
    and dir: "log_dir r = experiment_dir (EXPERIMENT_COUNTER (session fs s))"
    and step: "EXPERIMENT_COUNTER (fst (train_cell f (session fs s)))
               = EXPERIMENT_COUNTER (session fs s) + (if completed r then 1 else 0)"
    by blast
  have 1: "runs (session (fs @ [f]) s) = runs s @ (rs @ [r])"
    using r rs by (simp add: session_append)
  have 2: "length (rs @ [r]) = length (fs @ [f])"
    using len by simp
  have 3: "EXPERIMENT_COUNTER (session (fs @ [f]) s)
           = EXPERIMENT_COUNTER s + int (length (filter completed (rs @ [r])))"
    using step cnt by (simp add: session_append)
  have 4: "log_dir ((rs @ [r]) ! i)
           = experiment_dir (EXPERIMENT_COUNTER s + int (completed_before (rs @ [r]) i))"
    if "i < length (rs @ [r])" for i
  proof (cases "i < length rs")
    case True
    then show ?thesis
      using dirs by (simp add: nth_append completed_before_append)
  next
    case False
    with that have i: "i = length rs" by simp
    have "completed_before (rs @ [r]) i = length (filter completed rs)"
      using i by (simp add: completed_before_append completed_before_all)
    then show ?thesis
      using i dir cnt by simp
  qed
  from 1 2 3 4 show ?case by blast
qed

text \<open>
  C8. In a session, from any state, the runs of the training cell that complete write to
  pairwise distinct directories. Each run, completed or not, is given the directory
  named after the counter's value at that run, which is the value at the start of the
  session plus the number of runs completed before it; each completed run increments the
  counter exactly once and a failed run does not, so the counter ends at its first value
  plus the number of completed runs.
\<close>

theorem completed_runs_distinct_dirs:
  "\<exists>rs. runs (session fs s) = runs s @ rs \<and> length rs = length fs \<and>
        EXPERIMENT_COUNTER (session fs s)
          = EXPERIMENT_COUNTER s + int (length (filter completed rs)) \<and>
        (\<forall>i<length rs. log_dir (rs ! i)
            = experiment_dir (EXPERIMENT_COUNTER s + int (completed_before rs i))) \<and>
        (\<forall>i j. i < j \<and> j < length rs \<and> completed (rs ! i) \<and> completed (rs ! j)
            \<longrightarrow> log_dir (rs ! i) \<noteq> log_dir (rs ! j))"
proof -
  from session_runs [of fs s] obtain rs where
    rs: "runs (session fs s) = runs s @ rs" and len: "length rs = length fs"
    and cnt: "EXPERIMENT_COUNTER (session fs s)
              = EXPERIMENT_COUNTER s + int (length (filter completed rs))"
    and dirs: "\<forall>i<length rs. log_dir (rs ! i)
                 = experiment_dir (EXPERIMENT_COUNTER s + int (completed_before rs i))"
    by blast
  have "log_dir (rs ! i) \<noteq> log_dir (rs ! j)"
    if "i < j" and "j < length rs" and "completed (rs ! i)" for i j
  proof
    assume eq: "log_dir (rs ! i) = log_dir (rs ! j)"
    have i: "i < length rs" using that(1,2) by simp
    from eq dirs i that(2)
    have "experiment_dir (EXPERIMENT_COUNTER s + int (completed_before rs i))
          = experiment_dir (EXPERIMENT_COUNTER s + int (completed_before rs j))"
      by simp
    then have "completed_before rs i = completed_before rs j"
      by (auto dest: experiment_dir_inj)
    moreover have "completed_before rs i < completed_before rs j"
      using that(1) i that(3) by (rule completed_before_less)
    ultimately show False by simp
  qed
  with rs len cnt dirs show ?thesis by blast
qed

lemma experiment_dir_examples:
  "experiment_dir 1 = ''./logs/experiment-1''"
  "experiment_dir 2 = ''./logs/experiment-2''"
  "experiment_dir 3 = ''./logs/experiment-3''"
  by code_simp+

lemma fit_constant:
  "fit (\<lambda>p e. Inr (p, m)) p epochs = (None, p, map (\<lambda>e. record_of e m) [0..<epochs])"
proof -
  have "fit_epochs (\<lambda>p e. Inr (p, m)) es p h = (None, p, h @ map (\<lambda>e. record_of e m) es)"
    for es and h :: "'b epoch_record list"
    by (induction es arbitrary: h) simp_all
  then show ?thesis by (simp add: fit_def)
qed

lemma fit_fails_at_once:
  "fit (\<lambda>p e. Inl err) p epochs = (Some err, p, [])"
  by (simp add: fit_def epochs_def upt_rec)

theorem completed_runs_distinct_dirs_witness:
  "map log_dir (runs (session
      [\<lambda>p e. Inr (p, \<lparr>loss = 0, acc = 1, val_loss = 0, val_acc = 1\<rparr>),
       \<lambda>p e. Inl TrainingError,
       \<lambda>p e. Inr (p, \<lparr>loss = 0, acc = 1, val_loss = 0, val_acc = 1\<rparr>)]
      (counter_cell \<lparr>EXPERIMENT_COUNTER = 0, model = 0 :: nat,
                     history = None :: nat epoch_record list option, runs = []\<rparr>)))
   = [''./logs/experiment-1'', ''./logs/experiment-2'', ''./logs/experiment-2''] \<and>
   map completed (runs (session
      [\<lambda>p e. Inr (p, \<lparr>loss = 0, acc = 1, val_loss = 0, val_acc = 1\<rparr>),
       \<lambda>p e. Inl TrainingError,
       \<lambda>p e. Inr (p, \<lparr>loss = 0, acc = 1, val_loss = 0, val_acc = 1\<rparr>)]
      (counter_cell \<lparr>EXPERIMENT_COUNTER = 0, model = 0 :: nat,
                     history = None :: nat epoch_record list option, runs = []\<rparr>)))
   = [True, False, True] \<and>
   EXPERIMENT_COUNTER (session
      [\<lambda>p e. Inr (p, \<lparr>loss = 0, acc = 1, val_loss = 0, val_acc = 1\<rparr>),
       \<lambda>p e. Inl TrainingError,
       \<lambda>p e. Inr (p, \<lparr>loss = 0, acc = 1, val_loss = 0, val_acc = 1\<rparr>)]
      (counter_cell \<lparr>EXPERIMENT_COUNTER = 0, model = 0 :: nat,
                     history = None :: nat epoch_record list option, runs = []\<rparr>)) = 3 \<and>
   log_dir (runs (session
      [\<lambda>p e. Inr (p, \<lparr>loss = 0, acc = 1, val_loss = 0, val_acc = 1\<rparr>),
       \<lambda>p e. Inl TrainingError,
       \<lambda>p e. Inr (p, \<lparr>loss = 0, acc = 1, val_loss = 0, val_acc = 1\<rparr>)]
      (counter_cell \<lparr>EXPERIMENT_COUNTER = 0, model = 0 :: nat,
                     history = None :: nat epoch_record list option, runs = []\<rparr>)) ! 0)
   \<noteq> log_dir (runs (session
      [\<lambda>p e. Inr (p, \<lparr>loss = 0, acc = 1, val_loss = 0, val_acc = 1\<rparr>),
       \<lambda>p e. Inl TrainingError,
       \<lambda>p e. Inr (p, \<lparr>loss = 0, acc = 1, val_loss = 0, val_acc = 1\<rparr>)]
      (counter_cell \<lparr>EXPERIMENT_COUNTER = 0, model = 0 :: nat,
                     history = None :: nat epoch_record list option, runs = []\<rparr>)) ! 2)"
  (is "map log_dir (runs (session ?fs ?s)) = ?dirs \<and> _")
proof -
  have r: "runs ?s = []"
    by (simp add: counter_cell_def)
  have dirs: "map log_dir (runs (session ?fs ?s)) = ?dirs"
    by (simp add: train_cell_def fit_constant fit_fails_at_once counter_cell_def
        experiment_dir_examples)
  have fin: "map completed (runs (session ?fs ?s)) = [True, False, True]"
    by (simp add: train_cell_def fit_constant fit_fails_at_once counter_cell_def)
  have cnt: "EXPERIMENT_COUNTER (session ?fs ?s) = 3"
    by (simp add: train_cell_def fit_constant fit_fails_at_once counter_cell_def)
  from completed_runs_distinct_dirs [of ?fs ?s] obtain rs where
    rs: "runs (session ?fs ?s) = runs ?s @ rs" and len: "length rs = length ?fs"
    and dist: "\<forall>i j. i < j \<and> j < length rs \<and> completed (rs ! i) \<and> completed (rs ! j)
            \<longrightarrow> log_dir (rs ! i) \<noteq> log_dir (rs ! j)"
    by blast
  from rs r have eq: "rs = runs (session ?fs ?s)" by simp
  have "map completed rs ! 0 = True" and "map completed rs ! 2 = True"
    using fin eq by simp_all
  then have "completed (rs ! 0)" and "completed (rs ! 2)"
    using len by simp_all
  with dist len have "log_dir (rs ! 0) \<noteq> log_dir (rs ! 2)"
    by simp
  with eq dirs fin cnt show ?thesis by simp
qed

text \<open>
  C10. If a training invocation fails (\<open>fit\<close> raises), the cell ends with that exception
  and the experiment counter keeps its value; the failed run was given the directory of
  that value, and the next execution of the cell, whatever it does, is given the same
  directory.
\<close>

theorem failed_run_keeps_counter:
  assumes "fst (fit f (model s) epochs) = Some e"
  shows "snd (train_cell f s) = Some e \<and>
         EXPERIMENT_COUNTER (fst (train_cell f s)) = EXPERIMENT_COUNTER s \<and>
         log_dir (last (runs (fst (train_cell f s)))) = experiment_dir (EXPERIMENT_COUNTER s) \<and>
         log_dir (last (runs (fst (train_cell g (fst (train_cell f s))))))
           = experiment_dir (EXPERIMENT_COUNTER s)"
proof -
  have failed: "snd (train_cell f s) = Some e"
    using assms by (auto simp: train_cell_def Let_def split: prod.splits option.splits)
  from train_cell_failed [OF failed] obtain h where
    cnt: "EXPERIMENT_COUNTER (fst (train_cell f s)) = EXPERIMENT_COUNTER s"
    and r: "runs (fst (train_cell f s))
            = runs s @ [\<lparr>log_dir = experiment_dir (EXPERIMENT_COUNTER s),
                           events = h, completed = False\<rparr>]"
    by blast
  from train_cell_run [of g "fst (train_cell f s)"] obtain r' where
    "runs (fst (train_cell g (fst (train_cell f s)))) = runs (fst (train_cell f s)) @ [r']"
    and "log_dir r' = experiment_dir (EXPERIMENT_COUNTER (fst (train_cell f s)))"
    by blast
  with failed cnt r show ?thesis by simp
qed

theorem failed_run_keeps_counter_witness:
  "fst (fit (\<lambda>p e. if e = 2 then Inl TrainingError
                    else Inr (Suc p, \<lparr>loss = 0 :: nat, acc = 1, val_loss = 0, val_acc = 1\<rparr>))
            (model \<lparr>EXPERIMENT_COUNTER = 1, model = 0 :: nat,
                    history = None :: nat epoch_record list option, runs = []\<rparr>) epochs)
     = Some TrainingError \<and>
   EXPERIMENT_COUNTER (fst (train_cell
       (\<lambda>p e. if e = 2 then Inl TrainingError
               else Inr (Suc p, \<lparr>loss = 0, acc = 1, val_loss = 0, val_acc = 1\<rparr>))
       \<lparr>EXPERIMENT_COUNTER = 1, model = 0 :: nat,
        history = None :: nat epoch_record list option, runs = []\<rparr>)) = 1 \<and>
   log_dir (last (runs (fst (train_cell
       (\<lambda>p e. Inr (p, \<lparr>loss = 0, acc = 1, val_loss = 0, val_acc = 1\<rparr>))
       (fst (train_cell
          (\<lambda>p e. if e = 2 then Inl TrainingError
                  else Inr (Suc p, \<lparr>loss = 0, acc = 1, val_loss = 0, val_acc = 1\<rparr>))
          \<lparr>EXPERIMENT_COUNTER = 1, model = 0 :: nat,
           history = None :: nat epoch_record list option, runs = []\<rparr>))))))
     = ''./logs/experiment-1''"
  (is "fst (fit ?f (model ?s) epochs) = _ \<and> _ \<and> log_dir (last (runs (fst (train_cell ?g _)))) = _")
proof -
  have h: "fst (fit ?f (model ?s) epochs) = Some TrainingError"
    by (simp add: fit_def epochs_def upt_rec record_of_def)
  from failed_run_keeps_counter [OF h, of ?g] h show ?thesis
    by (simp add: experiment_dir_examples)
qed

section \<open>Properties of the normalization\<close>

lemma round_half_even_bounds: "\<lfloor>x\<rfloor> \<le> round_half_even x \<and> round_half_even x \<le> \<lceil>x\<rceil>"
proof (cases "x = of_int \<lfloor>x\<rfloor>")
  case True
  then have "x - of_int \<lfloor>x\<rfloor> = 0" by simp
  then show ?thesis by (simp add: round_half_even_def Let_def)
next
  case False
  then have "\<lceil>x\<rceil> = \<lfloor>x\<rfloor> + 1"
    by (metis ceiling_altdef)
  then show ?thesis by (simp add: round_half_even_def Let_def)
qed

text \<open>
  The rounding is to a nearest float: the result is within half a spacing of the
  quotient.
\<close>

lemma round_half_even_nearest: "\<bar>of_int (round_half_even x) - x\<bar> \<le> 1 / 2"
proof -
  define r where "r = x - of_int \<lfloor>x\<rfloor>"
  have r0: "0 \<le> r" and r1: "r < 1"
    unfolding r_def by linarith+
  have x: "x = of_int \<lfloor>x\<rfloor> + r"
    by (simp add: r_def)
  have "\<bar>of_int (if r < 1 / 2 then \<lfloor>x\<rfloor>
                 else if 1 / 2 < r then \<lfloor>x\<rfloor> + 1
                 else if even \<lfloor>x\<rfloor> then \<lfloor>x\<rfloor> else \<lfloor>x\<rfloor> + 1)
         - (of_int \<lfloor>x\<rfloor> + r)\<bar> \<le> 1 / 2"
    using r0 r1 by (auto simp: abs_if)
  then show ?thesis
    unfolding round_half_even_def Let_def r_def [symmetric] using x by simp
qed

lemma float32_round_nearest:
  assumes "0 < q"
  shows "\<bar>float32_round q - q\<bar> \<le> 1 / 2 ^ (binade q 0 126 + 24)"
proof -
  define k where "k = binade q 0 126"
  have "float32_round q - q
        = (of_int (round_half_even (q * 2 ^ (k + 23))) - q * 2 ^ (k + 23)) / 2 ^ (k + 23)"
    using assms by (simp add: float32_round_def Let_def k_def diff_divide_distrib)
  then have "\<bar>float32_round q - q\<bar>
        = \<bar>of_int (round_half_even (q * 2 ^ (k + 23))) - q * 2 ^ (k + 23)\<bar> / 2 ^ (k + 23)"
    by (simp add: abs_divide)
  also have "\<dots> \<le> (1 / 2) / 2 ^ (k + 23)"
    by (intro divide_right_mono round_half_even_nearest) simp
  also have "\<dots> = 1 / 2 ^ (k + 24)"
    by (simp add: power_add)
  finally show ?thesis by (simp add: k_def)
qed

lemma float32_round_unit:
  assumes "0 \<le> q" and "q \<le> 1"
  shows "0 \<le> float32_round q \<and> float32_round q \<le> 1"
proof (cases "q = 0")
  case True
  then show ?thesis by (simp add: float32_round_def)
next
  case False
  define k where "k = binade q 0 126"
  define x where "x = q * 2 ^ (k + 23)"
  have x0: "0 \<le> x"
    using assms(1) by (simp add: x_def)
  have x1: "x \<le> 2 ^ (k + 23)"
    using assms(2) by (simp add: x_def mult_left_le_one_le)
  have "0 \<le> \<lfloor>x\<rfloor>"
    using x0 by simp
  then have lo: "0 \<le> round_half_even x"
    using round_half_even_bounds [of x] by linarith
  have "\<lceil>x\<rceil> \<le> 2 ^ (k + 23)"
    using x1 by (simp add: ceiling_le_iff)
  then have hi: "round_half_even x \<le> 2 ^ (k + 23)"
    using round_half_even_bounds [of x] by linarith
  have r: "float32_round q = of_int (round_half_even x) / 2 ^ (k + 23)"
    using False by (simp add: float32_round_def Let_def k_def x_def)
  have "0 \<le> (of_int (round_half_even x) :: rat) / 2 ^ (k + 23)"
    using lo by simp
  moreover have "(of_int (round_half_even x) :: rat) \<le> of_int (2 ^ (k + 23))"
    using hi by (simp only: of_int_le_iff)
  then have "(of_int (round_half_even x) :: rat) / 2 ^ (k + 23) \<le> 1"
    by (simp add: divide_le_eq)
  ultimately show ?thesis using r by simp
qed

lemma normalize_unit: "0 \<le> normalize p \<and> normalize p \<le> 1"
proof -
  define n where "n = unat p"
  have "n < 2 ^ 8"
    unfolding n_def using unsigned_less [of p, where 'a = nat] by simp
  then have "(of_nat n :: rat) \<le> of_nat 255"
    by (simp only: of_nat_le_iff) simp
  then have "(of_nat n :: rat) / 255 \<le> 1"
    by simp
  moreover have "0 \<le> (of_nat n :: rat) / 255"
    by simp
  ultimately have "0 \<le> float32_round (of_nat n / 255) \<and> float32_round (of_nat n / 255) \<le> 1"
    by (rule float32_round_unit [rotated])
  then show ?thesis
    by (simp only: normalize_def n_def)
qed

lemma normalize_ends: "normalize 0 = 0" "normalize 255 = 1"
  by code_simp+

lemma normalize_array:
  "data (divide_by 255 (astype_float32 a)) = map normalize (data a)"
  by (simp add: divide_by_def astype_float32_def normalize_def)

text \<open>
  C6. The two normalization statements of the loading cells, the conversion to single
  precision and the division by 255, turn every byte \<open>p\<close> of an image array into
  \<open>normalize p\<close>, which lies in [0, 1] for every pixel value \<open>p\<close> in [0, 255] (every value
  of a byte); 0 becomes 0 and 255 becomes 1.
\<close>

theorem normalize_in_unit_interval:
  "data (divide_by 255 (astype_float32 a)) = map normalize (data a) \<and>
   0 \<le> normalize p \<and> normalize p \<le> 1 \<and> normalize 0 = 0 \<and> normalize 255 = 1"
  using normalize_array [of a] normalize_unit [of p] normalize_ends by simp

section \<open>Properties of the loading cells\<close>

lemma bind_result_simps:
  "bind_result (Inl e) f = Inl e" "bind_result (Inr v) f = f v"
  by (simp_all add: bind_result_def)

lemma bind_result_Inr:
  "bind_result r f = Inr d \<Longrightarrow> \<exists>v. r = Inr v \<and> f v = Inr d"
  by (cases r) (simp_all add: bind_result_def)

lemma list_all_take: "list_all P xs \<Longrightarrow> list_all P (take k xs)"
  by (auto simp: list_all_iff dest: in_set_takeD)

lemma to_categorical_array_ok:
  assumes "list_all (\<lambda>y. unat y < K) (data y)"
  shows "to_categorical_array y K = Inr (map (\<lambda>l. one_hot K (unat l)) (data y))"
  using assms by (simp add: to_categorical_array_def to_categorical_def list_all_iff comp_def)

lemma slice_to_rows:
  assumes "shape a = r # rest"
  shows "slice_to n a = Inr \<lparr>shape = slice_stop n r # rest,
                            data = take (slice_stop n r * prod_list rest) (data a)\<rparr>"
  using assms by (simp add: slice_to_def Let_def)

lemma slice_stop_le: "slice_stop n r \<le> r"
  by (simp add: slice_stop_def)

lemma slice_stop_beyond: "int r \<le> n \<Longrightarrow> slice_stop n r = r"
  by (simp add: slice_stop_def)

lemma slice_stop_within: "0 \<le> n \<Longrightarrow> n \<le> int r \<Longrightarrow> slice_stop n r = nat n"
  by (simp add: slice_stop_def)

text \<open>
  On a corpus of the MNIST shape the loading cell of part_000 returns for every pair of
  requested counts, with these sizes.
\<close>

lemma load_part_000_sizes:
  assumes "mnist_shaped c"
  shows "\<exists>d. load_part_000 N M c = Inr d \<and>
             sizes d = (slice_stop N 60000, slice_stop N 60000,
                        slice_stop M (slice_stop N 60000), slice_stop M 10000)"
proof -
  from assms have xs: "shape (x_train c) = [60000, 28, 28]"
    and xl: "length (data (x_train c)) = 60000 * 28 * 28"
    and ys: "shape (y_train c) = [60000]" and yl: "length (data (y_train c)) = 60000"
    and ya: "list_all (\<lambda>y. unat y < num_classes) (data (y_train c))"
    and ts: "shape (x_test c) = [10000, 28, 28]"
    and tl: "length (data (x_test c)) = 10000 * 28 * 28"
    and us: "shape (y_test c) = [10000]" and ul: "length (data (y_test c)) = 10000"
    and ua: "list_all (\<lambda>y. unat y < num_classes) (data (y_test c))"
    by (simp_all add: mnist_shaped_def images_of_def labels_of_def)
  define x1 where "x1 = (x_train c)\<lparr>shape := [60000, 28 * 28]\<rparr>"
  define t1 where "t1 = (x_test c)\<lparr>shape := [10000, 28 * 28]\<rparr>"
  define k where "k = slice_stop N 60000"
  define x2 :: "8 word ndarray"
    where "x2 = \<lparr>shape = [k, 28 * 28], data = take (k * prod_list [28 * 28]) (data x1)\<rparr>"
  define j where "j = slice_stop M k"
  define t2 :: "rat ndarray"
    where "t2 = \<lparr>shape = [j, 28 * 28],
                 data = take (j * prod_list [28 * 28]) (data (astype_float32 x2))\<rparr>"
  define y1 :: "8 word ndarray"
    where "y1 = \<lparr>shape = [k], data = take (k * prod_list []) (data (y_train c))\<rparr>"
  define u1 :: "8 word ndarray"
    where "u1 = \<lparr>shape = [slice_stop M 10000],
                 data = take (slice_stop M 10000 * prod_list []) (data (y_test c))\<rparr>"
  have r1: "reshape [60000, 28 * 28] (x_train c) = Inr x1"
    using xl by (simp add: reshape_def x1_def)
  have r2: "reshape [10000, 28 * 28] (x_test c) = Inr t1"
    using tl by (simp add: reshape_def t1_def)
  have s1: "slice_to N x1 = Inr x2"
    unfolding x2_def k_def by (rule slice_to_rows) (simp add: x1_def)
  have s2: "slice_to M (astype_float32 x2) = Inr t2"
    unfolding t2_def j_def by (rule slice_to_rows) (simp add: x2_def astype_float32_def)
  have s3: "slice_to N (y_train c) = Inr y1"
    unfolding y1_def k_def by (rule slice_to_rows) (rule ys)
  have s4: "slice_to M (y_test c) = Inr u1"
    unfolding u1_def by (rule slice_to_rows) (rule us)
  have c1: "to_categorical_array y1 num_classes
            = Inr (map (\<lambda>l. one_hot num_classes (unat l)) (data y1))"
    by (rule to_categorical_array_ok) (simp add: y1_def list_all_take ya)
  have c2: "to_categorical_array u1 num_classes
            = Inr (map (\<lambda>l. one_hot num_classes (unat l)) (data u1))"
    by (rule to_categorical_array_ok) (simp add: u1_def list_all_take ua)
  have load: "load_part_000 N M c
        = Inr \<lparr>x_train = divide_by 255 (astype_float32 x2),
               y_train = map (\<lambda>l. one_hot num_classes (unat l)) (data y1),
               x_test = divide_by 255 t2,
               y_test = map (\<lambda>l. one_hot num_classes (unat l)) (data u1)\<rparr>"
    by (simp only: load_part_000_def r1 r2 s1 s2 s3 s4 c1 c2 bind_result_simps)
  have k: "k \<le> 60000"
    unfolding k_def by (rule slice_stop_le)
  have m: "slice_stop M 10000 \<le> 10000"
    by (rule slice_stop_le)
  have "length (data y1) = k"
    using k yl by (simp add: y1_def)
  moreover have "length (data u1) = slice_stop M 10000"
    using m ul by (simp add: u1_def)
  ultimately have "sizes \<lparr>x_train = divide_by 255 (astype_float32 x2),
               y_train = map (\<lambda>l. one_hot num_classes (unat l)) (data y1),
               x_test = divide_by 255 t2,
               y_test = map (\<lambda>l. one_hot num_classes (unat l)) (data u1)\<rparr>
        = (k, k, j, slice_stop M 10000)"
    by (simp add: sizes_def rows_def divide_by_def astype_float32_def x2_def t2_def)
  with load show ?thesis
    unfolding k_def j_def by blast
qed

text \<open>
  In every dataset the loading cell of part_000 returns, the test features are the first
  rows of the training features: \<open>x_test = x_train[:TEST_EXAMPLES]\<close> also holds after
  the cell.
\<close>

lemma slice_to_divide_by:
  "slice_to n (divide_by q a) = map_sum id (divide_by q) (slice_to n a)"
  by (simp add: slice_to_def divide_by_def take_map Let_def split: list.splits)

lemma load_part_000_test_features:
  assumes "load_part_000 N M c = Inr d"
  shows "slice_to M (x_train d) = Inr (x_test d)"
proof -
  from assms obtain x2 t2 y2 u2 where
    t2: "slice_to M (astype_float32 x2) = Inr t2"
    and d: "d = \<lparr>x_train = divide_by 255 (astype_float32 x2), y_train = y2,
                 x_test = divide_by 255 t2, y_test = u2\<rparr>"
    unfolding load_part_000_def
    by (auto dest!: bind_result_Inr)
  show ?thesis
    by (simp add: d slice_to_divide_by t2)
qed

text \<open>
  The random subsampling of part_001 and part_002: a requested count beyond the rows of
  its split makes the loading statements raise.
\<close>

lemma random_choice_oversized: "a < n \<Longrightarrow> random_choice p a n = Inl ValueError"
  by (simp add: random_choice_def)

lemma shape0_rows: "shape0 a = Inr r \<Longrightarrow> rows a = r"
  by (simp add: shape0_def rows_def split: list.splits)

lemma subsample_oversized:
  assumes "rows (x_train c) < N \<or> rows (x_test c) < M"
  shows "\<exists>e. subsample p1 p2 N M c = Inl e"
proof (cases "subsample p1 p2 N M c")
  case (Inl e)
  then show ?thesis by blast
next
  case (Inr d)
  then obtain n_train train_mask n_test test_mask where
    "shape0 (x_train c) = Inr n_train"
    and "random_choice p1 n_train N = Inr train_mask"
    and "shape0 (x_test c) = Inr n_test"
    and "random_choice p2 n_test M = Inr test_mask"
    unfolding subsample_def by (auto dest!: bind_result_Inr)
  then have "\<not> rows (x_train c) < N" and "\<not> rows (x_test c) < M"
    by (auto simp: random_choice_def dest!: shape0_rows split: if_splits)
  with assms show ?thesis by simp
qed

lemma reshape_shape: "reshape new a = Inr b \<Longrightarrow> shape b = new \<and> data b = data a"
  by (auto simp: reshape_def split: if_splits)

lemma load_part_001_oversized:
  assumes "60000 < N \<or> 10000 < M"
  shows "\<exists>e. load_part_001 p1 p2 N M c = Inl e"
proof (cases "load_part_001 p1 p2 N M c")
  case (Inl e)
  then show ?thesis by blast
next
  case (Inr d)
  then obtain x1 t1 where
    x1: "reshape [60000, 28 * 28] (x_train c) = Inr x1"
    and t1: "reshape [10000, 28 * 28] (x_test c) = Inr t1"
    and sub: "subsample p1 p2 N M (c\<lparr>x_train := x1, x_test := t1\<rparr>) = Inr d"
    unfolding load_part_001_def by (auto dest!: bind_result_Inr)
  have "rows x1 = 60000" and "rows t1 = 10000"
    using reshape_shape [OF x1] reshape_shape [OF t1] by (simp_all add: rows_def)
  with assms have "rows (x_train (c\<lparr>x_train := x1, x_test := t1\<rparr>)) < N
                   \<or> rows (x_test (c\<lparr>x_train := x1, x_test := t1\<rparr>)) < M"
    by simp
  from subsample_oversized [OF this, of p1 p2] sub show ?thesis by simp
qed

lemma load_part_002_oversized:
  assumes "rows (x_train c) < N \<or> rows (x_test c) < M"
  shows "\<exists>e. load_part_002 p1 p2 N M c = Inl e"
proof (cases "load_part_002 p1 p2 N M c")
  case (Inl e)
  then show ?thesis by blast
next
  case (Inr d)
  then obtain n_train x1 n_test t1 where
    n1: "shape0 (x_train c) = Inr n_train"
    and x1: "reshape [n_train, 28, 28, 1] (x_train c) = Inr x1"
    and n2: "shape0 (x_test c) = Inr n_test"
    and t1: "reshape [n_test, 28, 28, 1] (x_test c) = Inr t1"
    and sub: "subsample p1 p2 N M (c\<lparr>x_train := x1, x_test := t1\<rparr>) = Inr d"
    unfolding load_part_002_def by (auto dest!: bind_result_Inr)
  have "rows x1 = rows (x_train c)" and "rows t1 = rows (x_test c)"
    using reshape_shape [OF x1] reshape_shape [OF t1] shape0_rows [OF n1] shape0_rows [OF n2]
    by (simp_all add: rows_def)
  with assms have "rows (x_train (c\<lparr>x_train := x1, x_test := t1\<rparr>)) < N
                   \<or> rows (x_test (c\<lparr>x_train := x1, x_test := t1\<rparr>)) < M"
    by simp
  from subsample_oversized [OF this, of p1 p2] sub show ?thesis by simp
qed

lemma train_on_failed: "train_on (Inl e) run_epoch p = (Some e, [], p, None)"
  by (simp add: train_on_def)

lemma train_part_000_called:
  "load_part_000 N M c = Inr d \<Longrightarrow> snd (snd (train_part_000 N M c run_epoch s)) = [d]"
  by (simp add: train_part_000_def split: prod.splits)

text \<open>
  The random subsampling with requested counts within the splits: each split of the
  loaded dataset has exactly the requested number of feature rows and of label rows.
\<close>

lemma permutation_of_take:
  assumes "permutation_of n p" and "k \<le> n"
  shows "length (take k p) = k \<and> list_all (\<lambda>i. i < n) (take k p)"
  using assms by (simp add: permutation_of_def list_all_take)

lemma take_rows_ok:
  assumes "shape a = r # rest" and "list_all (\<lambda>i. i < r) idx"
  shows "\<exists>b. take_rows idx a = Inr b \<and> shape b = length idx # rest"
  using assms by (simp add: take_rows_def)

lemma single_rows:
  "list_all (\<lambda>i. i < length ys) idx \<Longrightarrow>
   concat (map (\<lambda>i. take 1 (drop i ys)) idx) = map (\<lambda>i. ys ! i) idx"
proof (induction idx)
  case Nil
  show ?case by simp
next
  case (Cons i idx)
  then have "i < length ys" by simp
  then have "drop i ys = ys ! i # drop (Suc i) ys"
    by (simp add: Cons_nth_drop_Suc)
  then have "take 1 (drop i ys) = [ys ! i]"
    by simp
  with Cons show ?case by simp
qed

lemma take_rows_labels:
  assumes "labels_of n y" and "list_all (\<lambda>i. i < n) idx"
  shows "\<exists>b. take_rows idx y = Inr b \<and> length (data b) = length idx \<and>
             list_all (\<lambda>l. unat l < num_classes) (data b)"
proof -
  from assms(1) have sh: "shape y = [n]" and len: "length (data y) = n"
    and lab: "list_all (\<lambda>l. unat l < num_classes) (data y)"
    by (simp_all add: labels_of_def)
  have idx: "list_all (\<lambda>i. i < length (data y)) idx"
    using assms(2) len by simp
  have "take_rows idx y = Inr \<lparr>shape = [length idx], data = map (\<lambda>i. data y ! i) idx\<rparr>"
    using sh assms(2) single_rows [OF idx] by (simp add: take_rows_def)
  moreover have "list_all (\<lambda>l. unat l < num_classes) (map (\<lambda>i. data y ! i) idx)"
    using lab idx by (auto simp: list_all_iff)
  ultimately show ?thesis by simp
qed

lemma subsample_sizes:
  assumes "shape (x_train c) = n1 # rest1" and "rest1 \<noteq> []" and "labels_of n1 (y_train c)"
    and "shape (x_test c) = n2 # rest2" and "rest2 \<noteq> []" and "labels_of n2 (y_test c)"
    and "permutation_of n1 p1" and "permutation_of n2 p2" and "N \<le> n1" and "M \<le> n2"
  shows "\<exists>d. subsample p1 p2 N M c = Inr d \<and> sizes d = (N, N, M, M)"
proof -
  from permutation_of_take [OF assms(7,9)]
  have l1: "length (take N p1) = N" and i1: "list_all (\<lambda>i. i < n1) (take N p1)"
    by simp_all
  from permutation_of_take [OF assms(8,10)]
  have l2: "length (take M p2) = M" and i2: "list_all (\<lambda>i. i < n2) (take M p2)"
    by simp_all
  have n1: "shape0 (x_train c) = Inr n1" and n2: "shape0 (x_test c) = Inr n2"
    using assms(1,4) by (simp_all add: shape0_def)
  have m1: "random_choice p1 n1 N = Inr (take N p1)"
    and m2: "random_choice p2 n2 M = Inr (take M p2)"
    using assms(9,10) by (simp_all add: random_choice_def)
  from take_rows_ok [OF assms(1) i1] obtain x1 where
    x1: "take_rows_all (take N p1) (x_train c) = Inr x1" and sx1: "shape x1 = N # rest1"
    using assms(1,2) l1 by (cases rest1) (auto simp: take_rows_all_def)
  from take_rows_ok [OF assms(4) i2] obtain t1 where
    t1: "take_rows_all (take M p2) (x_test c) = Inr t1" and st1: "shape t1 = M # rest2"
    using assms(4,5) l2 by (cases rest2) (auto simp: take_rows_all_def)
  from take_rows_labels [OF assms(3) i1] obtain y1 where
    y1: "take_rows (take N p1) (y_train c) = Inr y1" and ly1: "length (data y1) = N"
    and ay1: "list_all (\<lambda>l. unat l < num_classes) (data y1)"
    using l1 by auto
  from take_rows_labels [OF assms(6) i2] obtain u1 where
    u1: "take_rows (take M p2) (y_test c) = Inr u1" and lu1: "length (data u1) = M"
    and au1: "list_all (\<lambda>l. unat l < num_classes) (data u1)"
    using l2 by auto
  note c1 = to_categorical_array_ok [OF ay1] and c2 = to_categorical_array_ok [OF au1]
  have "subsample p1 p2 N M c
        = Inr \<lparr>x_train = divide_by 255 (astype_float32 x1),
               y_train = map (\<lambda>l. one_hot num_classes (unat l)) (data y1),
               x_test = divide_by 255 (astype_float32 t1),
               y_test = map (\<lambda>l. one_hot num_classes (unat l)) (data u1)\<rparr>"
    by (simp only: subsample_def n1 n2 m1 m2 x1 t1 y1 u1 c1 c2 bind_result_simps)
  moreover have "sizes \<lparr>x_train = divide_by 255 (astype_float32 x1),
               y_train = map (\<lambda>l. one_hot num_classes (unat l)) (data y1),
               x_test = divide_by 255 (astype_float32 t1),
               y_test = map (\<lambda>l. one_hot num_classes (unat l)) (data u1)\<rparr> = (N, N, M, M)"
    using sx1 st1 ly1 lu1 by (simp add: sizes_def rows_def divide_by_def astype_float32_def)
  ultimately show ?thesis by simp
qed

lemma load_part_001_sizes:
  assumes "mnist_shaped c" and "permutation_of 60000 p1" and "permutation_of 10000 p2"
    and "N \<le> 60000" and "M \<le> 10000"
  shows "\<exists>d. load_part_001 p1 p2 N M c = Inr d \<and> sizes d = (N, N, M, M)"
proof -
  define x1 where "x1 = (x_train c)\<lparr>shape := [60000, 28 * 28]\<rparr>"
  define t1 where "t1 = (x_test c)\<lparr>shape := [10000, 28 * 28]\<rparr>"
  have r1: "reshape [60000, 28 * 28] (x_train c) = Inr x1"
    and r2: "reshape [10000, 28 * 28] (x_test c) = Inr t1"
    using assms(1) by (simp_all add: reshape_def x1_def t1_def mnist_shaped_def images_of_def)
  have "\<exists>d. subsample p1 p2 N M (c\<lparr>x_train := x1, x_test := t1\<rparr>) = Inr d
             \<and> sizes d = (N, N, M, M)"
    using assms by (intro subsample_sizes [where ?rest1.0 = "[28 * 28]" and ?rest2.0 = "[28 * 28]"])
      (simp_all add: x1_def t1_def mnist_shaped_def)
  then show ?thesis
    by (simp only: load_part_001_def r1 r2 bind_result_simps)
qed

lemma load_part_002_sizes:
  assumes "mnist_shaped c" and "permutation_of 60000 p1" and "permutation_of 10000 p2"
    and "N \<le> 60000" and "M \<le> 10000"
  shows "\<exists>d. load_part_002 p1 p2 N M c = Inr d \<and> sizes d = (N, N, M, M)"
proof -
  define x1 where "x1 = (x_train c)\<lparr>shape := [60000, 28, 28, 1]\<rparr>"
  define t1 where "t1 = (x_test c)\<lparr>shape := [10000, 28, 28, 1]\<rparr>"
  have n1: "shape0 (x_train c) = Inr 60000" and n2: "shape0 (x_test c) = Inr 10000"
    using assms(1) by (simp_all add: shape0_def mnist_shaped_def images_of_def)
  have r1: "reshape [60000, 28, 28, 1] (x_train c) = Inr x1"
    and r2: "reshape [10000, 28, 28, 1] (x_test c) = Inr t1"
    using assms(1) by (simp_all add: reshape_def x1_def t1_def mnist_shaped_def images_of_def)
  have "\<exists>d. subsample p1 p2 N M (c\<lparr>x_train := x1, x_test := t1\<rparr>) = Inr d
             \<and> sizes d = (N, N, M, M)"
    using assms by (intro subsample_sizes [where ?rest1.0 = "[28, 28, 1]" and ?rest2.0 = "[28, 28, 1]"])
      (simp_all add: x1_def t1_def mnist_shaped_def)
  then show ?thesis
    by (simp only: load_part_002_def n1 n2 r1 r2 bind_result_simps)
qed

text \<open>
  In every dataset the random subsampling returns, the training features are rows of
  the corpus' training images and the test features are rows of its test images.
\<close>

lemma subsample_sources:
  assumes "subsample p1 p2 N M c = Inr d"
  shows "\<exists>a b. take_rows_all (take N p1) (x_train c) = Inr a \<and>
               take_rows_all (take M p2) (x_test c) = Inr b \<and>
               x_train d = divide_by 255 (astype_float32 a) \<and>
               x_test d = divide_by 255 (astype_float32 b)"
proof -
  from assms obtain n_train train_mask a n_test test_mask b y2 u2 where
    m1: "random_choice p1 n_train N = Inr train_mask"
    and a: "take_rows_all train_mask (x_train c) = Inr a"
    and m2: "random_choice p2 n_test M = Inr test_mask"
    and b: "take_rows_all test_mask (x_test c) = Inr b"
    and d: "d = \<lparr>x_train = divide_by 255 (astype_float32 a), y_train = y2,
                 x_test = divide_by 255 (astype_float32 b), y_test = u2\<rparr>"
    unfolding subsample_def by (auto dest!: bind_result_Inr)
  from m1 m2 have "train_mask = take N p1" and "test_mask = take M p2"
    by (auto simp: random_choice_def split: if_splits)
  with a b d show ?thesis by simp
qed

section \<open>The cells on the example corpus\<close>

lemma example_corpus_shaped: "mnist_shaped example_corpus"
  by (simp add: mnist_shaped_def images_of_def labels_of_def example_corpus_def
      num_classes_def list_all_iff)

lemma float32_round_ends: "float32_round 0 = 0" "float32_round 1 = 1"
  by code_simp+

lemmas load_example_simps =
  load_part_000_def example_corpus_def reshape_def slice_to_def slice_stop_def
  astype_float32_def divide_by_def to_categorical_array_def to_categorical_def
  num_classes_def list_all_iff float32_round_ends bind_result_simps

lemma load_part_000_example_6000:
  "load_part_000 6000 1000 example_corpus
   = Inr \<lparr>x_train = \<lparr>shape = [6000, 784], data = replicate 4704000 0\<rparr>,
          y_train = replicate 6000 (one_hot 10 7),
          x_test = \<lparr>shape = [1000, 784], data = replicate 784000 0\<rparr>,
          y_test = replicate 1000 (one_hot 10 3)\<rparr>"
  by (simp add: load_example_simps)

lemma load_part_000_example_70000:
  "load_part_000 70000 1000 example_corpus
   = Inr \<lparr>x_train = \<lparr>shape = [60000, 784], data = replicate 47040000 0\<rparr>,
          y_train = replicate 60000 (one_hot 10 7),
          x_test = \<lparr>shape = [1000, 784], data = replicate 784000 0\<rparr>,
          y_test = replicate 1000 (one_hot 10 3)\<rparr>"
  by (simp add: load_example_simps)

lemma load_part_000_example_500:
  "load_part_000 500 1000 example_corpus
   = Inr \<lparr>x_train = \<lparr>shape = [500, 784], data = replicate 392000 0\<rparr>,
          y_train = replicate 500 (one_hot 10 7),
          x_test = \<lparr>shape = [500, 784], data = replicate 392000 0\<rparr>,
          y_test = replicate 1000 (one_hot 10 3)\<rparr>"
  by (simp add: load_example_simps)

lemma example_epoch_returns: "snd (train_cell (example_epoch d) s) = None"
  by (simp add: train_cell_def fit_def epochs_def upt_rec example_epoch_def)

lemma train_part_000_example:
  "load_part_000 N M c = Inr d \<Longrightarrow>
   snd (train_part_000 N M c example_epoch s) = (None, [d])"
  using example_epoch_returns [of d "counter_cell s"]
  by (cases "train_cell (example_epoch d) (counter_cell s)") (simp add: train_part_000_def)

text \<open>
  C1, as stated, fails on part_000: on a corpus with 60000 training images a request for
  70000 does not make the loading cell raise. The cell returns the 60000 rows there are,
  the run reaches the training cell without an exception and \<open>fit\<close> is called on them.
\<close>

theorem oversized_slice_counterexample:
  "int (rows (x_train example_corpus)) < 70000 \<and>
   map_sum id sizes (load_part_000 70000 1000 example_corpus)
     = Inr (60000, 60000, 1000, 1000) \<and>
   fst (snd (train_part_000 70000 1000 example_corpus example_epoch fresh_notebook)) = None \<and>
   map sizes (snd (snd (train_part_000 70000 1000 example_corpus example_epoch fresh_notebook)))
     = [(60000, 60000, 1000, 1000)]"
proof -
  have "int (rows (x_train example_corpus)) < 70000"
    by (simp add: rows_def example_corpus_def)
  moreover have "map_sum id sizes (load_part_000 70000 1000 example_corpus)
     = Inr (60000, 60000, 1000, 1000)"
    by (simp add: load_part_000_example_70000 sizes_def rows_def)
  moreover note train_part_000_example [OF load_part_000_example_70000, of fresh_notebook]
  ultimately show ?thesis
    by (simp add: sizes_def rows_def)
qed

text \<open>
  C1, amended. A requested sample count beyond the size of its split makes the random
  subsampling of part_001 (splits of 60000 and 10000 rows) and of part_002 raise before
  the training cell: the run stops with an exception and \<open>fit\<close> is never called. The
  prefix slicing of part_000 does not raise: on a corpus of the MNIST shape the loading
  cell returns for every pair of requested counts and \<open>fit\<close> is called on the result;
  a \<open>TRAIN_EXAMPLES\<close> of at least 60000 keeps all 60000 training feature rows and all
  60000 training labels, and a \<open>TEST_EXAMPLES\<close> of at least 10000 keeps all 10000 test
  labels. The statement is silent on the test features.
\<close>

theorem oversized_request:
  "(60000 < N \<or> 10000 < M \<longrightarrow>
      (\<exists>e. train_part_001 p1 p2 N M c run_epoch p = (Some e, [], p, None))) \<and>
   (rows (x_train c) < N \<or> rows (x_test c) < M \<longrightarrow>
      (\<exists>e. train_part_002 p1 p2 N M c run_epoch p = (Some e, [], p, None))) \<and>
   (mnist_shaped c \<longrightarrow>
      (\<exists>d. load_part_000 I J c = Inr d \<and>
           snd (snd (train_part_000 I J c run_epoch' s)) = [d] \<and>
           (60000 \<le> I \<longrightarrow> rows (x_train d) = 60000 \<and> length (y_train d) = 60000) \<and>
           (10000 \<le> J \<longrightarrow> length (y_test d) = 10000)))"
proof (intro conjI impI)
  assume "60000 < N \<or> 10000 < M"
  from load_part_001_oversized [OF this, of p1 p2 c]
  show "\<exists>e. train_part_001 p1 p2 N M c run_epoch p = (Some e, [], p, None)"
    by (auto simp: train_part_001_def train_on_failed)
next
  assume "rows (x_train c) < N \<or> rows (x_test c) < M"
  from load_part_002_oversized [OF this, of p1 p2]
  show "\<exists>e. train_part_002 p1 p2 N M c run_epoch p = (Some e, [], p, None)"
    by (auto simp: train_part_002_def train_on_failed)
next
  assume "mnist_shaped c"
  from load_part_000_sizes [OF this, of I J] obtain d where
    d: "load_part_000 I J c = Inr d"
    and sz: "sizes d = (slice_stop I 60000, slice_stop I 60000,
                       slice_stop J (slice_stop I 60000), slice_stop J 10000)"
    by blast
  have "rows (x_train d) = 60000 \<and> length (y_train d) = 60000" if "60000 \<le> I"
    using sz that by (simp add: sizes_def slice_stop_beyond)
  moreover have "length (y_test d) = 10000" if "10000 \<le> J"
    using sz that by (simp add: sizes_def slice_stop_beyond)
  ultimately show "\<exists>d. load_part_000 I J c = Inr d \<and>
           snd (snd (train_part_000 I J c run_epoch' s)) = [d] \<and>
           (60000 \<le> I \<longrightarrow> rows (x_train d) = 60000 \<and> length (y_train d) = 60000) \<and>
           (10000 \<le> J \<longrightarrow> length (y_test d) = 10000)"
    using d train_part_000_called [OF d, of run_epoch' s] by blast
qed

theorem oversized_request_witness:
  "(60000 :: nat) < 70000 \<and>
   train_part_001 [] [] 70000 1000 example_corpus example_epoch 0
     = (Some ValueError, [], 0, None) \<and>
   rows (x_test example_corpus) < 10001 \<and>
   train_part_002 [] [] 1000 10001 example_corpus example_epoch 0
     = (Some ValueError, [], 0, None) \<and>
   mnist_shaped example_corpus \<and> (60000 :: int) \<le> 70000 \<and>
   map sizes (snd (snd (train_part_000 70000 1000 example_corpus failing_epoch fresh_notebook)))
     = [(60000, 60000, 1000, 1000)]"
proof -
  have a: "(60000 :: nat) < 70000 \<or> (10000 :: nat) < 1000"
    by simp
  have b: "rows (x_train example_corpus) < 1000 \<or> rows (x_test example_corpus) < 10001"
    by (simp add: rows_def example_corpus_def)
  note t = oversized_request [of 70000 1000 "[]" "[]" example_corpus example_epoch 0
      70000 1000 failing_epoch fresh_notebook]
  note u = oversized_request [of 1000 10001 "[]" "[]" example_corpus example_epoch 0
      70000 1000 failing_epoch fresh_notebook]
  have 1: "train_part_001 [] [] 70000 1000 example_corpus example_epoch 0
           = (Some ValueError, [], 0, None)"
    by (simp add: train_part_001_def train_on_def load_part_001_def subsample_def
        random_choice_def shape0_def reshape_def example_corpus_def bind_result_simps)
  have 2: "train_part_002 [] [] 1000 10001 example_corpus example_epoch 0
           = (Some ValueError, [], 0, None)"
    by (simp add: train_part_002_def train_on_def load_part_002_def subsample_def
        random_choice_def shape0_def reshape_def example_corpus_def bind_result_simps
        take_rows_all_def take_rows_def)
  from t example_corpus_shaped load_part_000_example_70000
  have 3: "map sizes (snd (snd (train_part_000 70000 1000 example_corpus
                                  failing_epoch fresh_notebook)))
           = [(60000, 60000, 1000, 1000)]"
    by (auto simp: sizes_def rows_def)
  from a b u 1 2 3 example_corpus_shaped show ?thesis
    by (simp add: rows_def example_corpus_def)
qed

text \<open>
  C2 fails on part_000. With the notebook's own counts (6000 and 1000) the test features
  are the first 1000 rows of the training features: black images, although every test
  image of the corpus is white; only the test labels come from the test split.
\<close>

theorem test_features_are_training_rows:
  "load_part_000 6000 1000 example_corpus
   = Inr \<lparr>x_train = \<lparr>shape = [6000, 784], data = replicate 4704000 0\<rparr>,
          y_train = replicate 6000 (one_hot 10 7),
          x_test = \<lparr>shape = [1000, 784], data = replicate 784000 0\<rparr>,
          y_test = replicate 1000 (one_hot 10 3)\<rparr> \<and>
   slice_to 1000 \<lparr>shape = [6000, 784], data = replicate 4704000 (0 :: rat)\<rparr>
   = Inr \<lparr>shape = [1000, 784], data = replicate 784000 0\<rparr> \<and>
   row \<lparr>shape = [1000, 784], data = replicate 784000 (0 :: rat)\<rparr> 0
   = row \<lparr>shape = [6000, 784], data = replicate 4704000 0\<rparr> 0 \<and>
   map normalize (row (x_test example_corpus) 0)
   \<noteq> row \<lparr>shape = [1000, 784], data = replicate 784000 0\<rparr> 0"
proof -
  have "map normalize (row (x_test example_corpus) 0) = replicate 784 1"
    by (simp add: row_def example_corpus_def normalize_ends)
  moreover have "row \<lparr>shape = [1000, 784], data = replicate 784000 (0 :: rat)\<rparr> 0
                 = replicate 784 0"
    by (simp add: row_def)
  moreover have "row \<lparr>shape = [6000, 784], data = replicate 4704000 (0 :: rat)\<rparr> 0
                 = replicate 784 0"
    by (simp add: row_def)
  moreover have "slice_to 1000 \<lparr>shape = [6000, 784], data = replicate 4704000 (0 :: rat)\<rparr>
                 = Inr \<lparr>shape = [1000, 784], data = replicate 784000 0\<rparr>"
    by (simp add: slice_to_def slice_stop_def)
  ultimately show ?thesis
    using load_part_000_example_6000 by simp
qed

text \<open>
  C5 fails on part_000. Requests of 500 training and 1000 test examples are both within
  the splits (60000 and 10000), yet the loaded test subset has 500 feature rows for its
  1000 label rows: line 75 slices the training features, already cut to 500 rows.
\<close>

theorem test_rows_short_of_request:
  "rows (x_train example_corpus) = 60000 \<and> rows (x_test example_corpus) = 10000 \<and>
   map_sum id sizes (load_part_000 500 1000 example_corpus) = Inr (500, 500, 500, 1000)"
proof -
  have "rows (x_train example_corpus) = 60000" and "rows (x_test example_corpus) = 10000"
    by (simp_all add: rows_def example_corpus_def)
  moreover have "map_sum id sizes (load_part_000 500 1000 example_corpus)
                 = Inr (500, 500, 500, 1000)"
    by (simp add: load_part_000_example_500 sizes_def rows_def)
  ultimately show ?thesis by simp
qed

end
